theory Spec2Isabelle
  imports Main "HOL-Library.Char_ord"
begin

section \<open>Library routines the generator calls\<close>

text \<open>
  Go strings are byte sequences; they are modelled as \<open>string\<close> (a list of 8-bit
  \<open>char\<close>). The generator reads identifiers and struct tags that the Go parser produced
  from source text, so every non-ASCII rune is a run of bytes above \<open>0x7F\<close>; none of the
  comparisons below (\<open>'A'..'Z'\<close>, \<open>';'\<close>, \<open>':'\<close>, the quote) matches such a byte.
\<close>

subsection \<open>Package strings\<close>

definition HasPrefix :: "string \<Rightarrow> string \<Rightarrow> bool" where
  "HasPrefix s p = (take (length p) s = p)"

definition TrimPrefix :: "string \<Rightarrow> string \<Rightarrow> string" where
  "TrimPrefix s p = (if HasPrefix s p then drop (length p) s else s)"

text \<open>\<open>strings.Split\<close> with a separator of one byte, as \<open>buildModelFieldInfo\<close> calls it.\<close>

fun Split :: "string \<Rightarrow> char \<Rightarrow> string list" where
  "Split [] sep = [[]]"
| "Split (c # cs) sep =
     (if c = sep then [] # Split cs sep
      else (case Split cs sep of [] \<Rightarrow> [[c]] | t # ts \<Rightarrow> (c # t) # ts))"

text \<open>
  \<open>strings.ReplaceAll\<close>: the non-overlapping occurrences of \<open>old\<close> are replaced from
  left to right. (With an empty \<open>old\<close> Go inserts \<open>new\<close> before every rune and at the
  end; the generator never does that.)
\<close>

function ReplaceAll :: "string \<Rightarrow> string \<Rightarrow> string \<Rightarrow> string" where
  "ReplaceAll s old new =
     (if old = [] then new @ concat (map (\<lambda>c. c # new) s)
      else if s = [] then []
      else if HasPrefix s old then new @ ReplaceAll (drop (length old) s) old new
      else hd s # ReplaceAll (tl s) old new)"
  by pat_completeness auto
termination
  by (relation "measure (\<lambda>(s, old, new). length s)") auto

declare ReplaceAll.simps [simp del]

subsection \<open>\<open>strconv.Unquote\<close> and \<open>reflect.StructTag\<close>\<close>

definition dquote :: char where
  "dquote = CHR 0x22"

definition backslash :: char where
  "backslash = CHR 0x5C"

definition newline :: char where
  "newline = CHR 0x0A"

text \<open>
  \<open>strconv.Unquote\<close> on a double-quoted string. A quoted string with no backslash, no
  newline and only ASCII bytes inside is returned without its quotes. Everything else
  (escape sequences, UTF-8 validation) is the library's escape processing, which is not
  part of this repository: it is the parameter \<open>uq\<close>, and every result below holds for
  each \<open>uq\<close>.
\<close>

definition Unquote :: "(string \<Rightarrow> string option) \<Rightarrow> string \<Rightarrow> string option" where
  "Unquote uq q =
     (if 2 \<le> length q \<and> hd q = dquote \<and> last q = dquote \<and>
         list_all (\<lambda>c. c \<noteq> dquote \<and> c \<noteq> backslash \<and> c \<noteq> newline \<and> c < CHR 0x80)
           (butlast (tl q))
      then Some (butlast (tl q))
      else uq q)"

text \<open>
  The scan of \<open>StructTag.Lookup\<close> for the closing quote: \<open>scanQuoted cs\<close> is how far the
  index moves over \<open>cs\<close> until it stands on an unescaped quote or beyond the end (a
  backslash skips the byte after it).
\<close>

fun scanQuoted :: "string \<Rightarrow> nat" where
  "scanQuoted [] = 0"
| "scanQuoted (c # cs) =
     (if c = dquote then 0
      else if c = backslash then (case cs of [] \<Rightarrow> 2 | _ # cs' \<Rightarrow> 2 + scanQuoted cs')
      else 1 + scanQuoted cs)"

text \<open>
  \<open>StructTag.Lookup\<close>: \<open>None\<close> is the result \<open>("", false)\<close>. Every \<open>break\<close> of the
  library's loop is a \<open>None\<close> here.
\<close>

function Lookup :: "(string \<Rightarrow> string option) \<Rightarrow> string \<Rightarrow> string \<Rightarrow> string option" where
  "Lookup uq tag key =
     (let tag1 = dropWhile (\<lambda>c. c = CHR 0x20) tag in
      if tag1 = [] then None
      else
        let i = length (takeWhile
                  (\<lambda>c. CHR 0x20 < c \<and> c \<noteq> CHR 0x3A \<and> c \<noteq> dquote \<and> c \<noteq> CHR 0x7F) tag1) in
        if i = 0 \<or> length tag1 \<le> i + 1 \<or> tag1 ! i \<noteq> CHR 0x3A \<or> tag1 ! (i + 1) \<noteq> dquote
        then None
        else
          let name = take i tag1;
              tag2 = drop (i + 1) tag1;
              j = 1 + scanQuoted (drop 1 tag2) in
          if length tag2 \<le> j then None
          else
            let qvalue = take (j + 1) tag2;
                tag3 = drop (j + 1) tag2 in
            if key = name then Unquote uq qvalue
            else Lookup uq tag3 key)"
  by pat_completeness auto
termination
proof (relation "measure (\<lambda>(uq, tag, key). length tag)", goal_cases)
  case 1
  show ?case by simp
next
  case (2 uq tag key tag1 i name tag2 j qvalue tag3)
  have "length tag1 \<le> length tag"
    using 2(1) by (simp add: length_dropWhile_le)
  moreover have "tag1 \<noteq> []"
    using 2(2) by simp
  moreover have "tag3 = drop (j + 1) (drop (i + 1) tag1)"
    using 2 by simp
  ultimately show ?case
    by (cases tag1) auto
qed

declare Lookup.simps [simp del]

definition Get :: "(string \<Rightarrow> string option) \<Rightarrow> string \<Rightarrow> string \<Rightarrow> string" where
  "Get uq tag key = (case Lookup uq tag key of None \<Rightarrow> [] | Some v \<Rightarrow> v)"

section \<open>The fragment of \<open>go/ast\<close> the generator reads\<close>

text \<open>
  A pointer that may be nil is an \<open>option\<close>. \<open>'o\<close> is what an identifier resolves to
  (\<open>Ident.Obj\<close>): the generator reads it only on receiver types; on the types of struct
  fields it reads the name alone.
\<close>

datatype 'o Expr =
    Ident string "'o option"
  | StarExpr "'o Expr"
  | SelectorExpr "'o Expr" string
  | OtherExpr

text \<open>
  \<open>ast.Field\<close>: \<open>Names\<close> holds the \<open>Name\<close> of each identifier (empty for an embedded
  field), \<open>Tag\<close> is \<open>Tag.Value\<close>, the tag literal as written in the source, quotes
  included, when \<open>Tag\<close> is not nil.
\<close>

record 'o Field =
  Names :: "string list"
  FieldType :: "'o Expr"
  Tag :: "string option"

datatype TypeExpr = StructType "unit Field list" | OtherTypeExpr

datatype ObjDecl = TypeSpec TypeExpr | OtherObjDecl

record Object =
  ObjName :: string
  ObjDecl :: ObjDecl

text \<open>
  \<open>ast.FuncDecl\<close>, with \<open>Type.Params\<close> and \<open>Type.Results\<close> flattened into it. A
  \<open>*ast.FieldList\<close> is the list of its fields, \<open>None\<close> when the pointer is nil: the Go
  parser leaves \<open>Recv\<close> nil for a function without receiver and \<open>Results\<close> nil for a
  signature without results.
\<close>

record FuncDecl =
  Recv :: "Object Field list option"
  FuncName :: string
  Params :: "Object Field list option"
  Results :: "Object Field list option"

datatype Decl = FuncDeclNode FuncDecl | GenDeclNode | BadDeclNode

record File =
  PkgName :: string
  Decls :: "Decl list"

section \<open>The generator\<close>

datatype fault =
    NilDereference
  | IndexOutOfRange
  | SliceBoundsOutOfRange
  | TypeAssertionFailed

record ModelFieldInfo =
  Name :: string
  Type :: string
  Column :: string
  PrimaryKey :: bool
  Comments :: "string list"

record ModelInfo =
  ModelName :: string
  Fields :: "ModelFieldInfo list"
  ModelComments :: "string list"

definition zeroField :: ModelFieldInfo where
  "zeroField = \<lparr>Name = [], Type = [], Column = [], PrimaryKey = False, Comments = []\<rparr>"

definition columnPrefix :: string where
  "columnPrefix = ''column:''"

definition primaryKey1 :: string where
  "primaryKey1 = ''primaryKey''"

definition primaryKey2 :: string where
  "primaryKey2 = ''primary_key''"

subsection \<open>The strategy \<open>Build\<close>\<close>

datatype error = TemplateParseError | TemplateExecError | FileCreateError | FileWriteError

text \<open>
  The value of the interface variable \<open>Build\<close>, which is set outside \<open>main.go\<close>.
  \<open>PackageKey\<close> and \<open>FileMaxSize\<close> are the results of the methods of these names.
  \<open>HeaderTemplate\<close> is the outcome of parsing \<open>Build.HeaderTemplate()\<close>: an error, or the
  template, given as what \<open>Execute\<close> appends to the buffer for a \<open>packageMap\<close> and the
  error it returns. \<open>ContentTemplate\<close> likewise for \<open>Build.ContentTemplate()\<close>, \<open>Execute\<close>
  being applied to \<open>Build.BuildTemplateMap(&v)\<close>. (\<open>packageMap\<close> holds strings only, so its
  values are strings here.)
\<close>

record Strategy =
  PackageKey :: string
  FileMaxSize :: int
  HeaderTemplate :: "error + ((string \<rightharpoonup> string) \<Rightarrow> string \<times> error option)"
  ContentTemplate :: "error + (ModelInfo \<Rightarrow> string \<times> error option)"

subsection \<open>\<open>snakeString\<close>\<close>

definition diff :: nat where
  "diff = of_char (CHR ''a'') - of_char (CHR ''A'')"

text \<open>
  The loop of lines 270 to 279, with the index \<open>i\<close> and the builder \<open>sb\<close>. The source
  ranges over runes and the model over bytes, which gives the same string for an
  identifier: \<open>i\<close> is only compared with 0, no byte of a multi-byte rune lies in
  \<open>'A'..'Z'\<close>, and \<open>WriteRune\<close> writes back the bytes of the rune it was given.
\<close>

fun snakeLoop :: "nat \<Rightarrow> string \<Rightarrow> string \<Rightarrow> string" where
  "snakeLoop i [] sb = sb"
| "snakeLoop i (v # vs) sb =
     (if CHR ''A'' \<le> v \<and> v \<le> CHR ''Z''
      then snakeLoop (i + 1) vs
             ((if i \<noteq> 0 then sb @ ''_'' else sb) @ [char_of (of_char v + diff)])
      else snakeLoop (i + 1) vs (sb @ [v]))"

definition snakeString :: "string \<Rightarrow> string" where
  "snakeString str = snakeLoop 0 (ReplaceAll str ''ID'' ''id'') []"

subsection \<open>\<open>buildModelFieldInfo\<close>\<close>

text \<open>The loop over the tokens of the gorm tag value (lines 230 to 236).\<close>

fun tokenLoop :: "string list \<Rightarrow> ModelFieldInfo \<Rightarrow> ModelFieldInfo" where
  "tokenLoop [] field = field"
| "tokenLoop (v # vs) field =
     (if HasPrefix v columnPrefix
      then tokenLoop vs (field\<lparr>Column := TrimPrefix v columnPrefix\<rparr>)
      else if v = primaryKey1 \<or> v = primaryKey2
      then tokenLoop vs (field\<lparr>PrimaryKey := True\<rparr>)
      else tokenLoop vs field)"

text \<open>
  Lines 225 to 242: the column and the primary-key flag. The slice
  \<open>af.Tag.Value[1 : len(af.Tag.Value)-2]\<close> panics when the literal has fewer than three
  bytes.
\<close>

definition setColumn ::
  "(string \<Rightarrow> string option) \<Rightarrow> string option \<Rightarrow> ModelFieldInfo \<Rightarrow> fault + ModelFieldInfo" where
  "setColumn uq afTag field =
     (case afTag of
        None \<Rightarrow> Inr (field\<lparr>Column := snakeString (Name field)\<rparr>)
      | Some v \<Rightarrow>
          if v = [] then Inr (field\<lparr>Column := snakeString (Name field)\<rparr>)
          else if length v < 3 then Inl SliceBoundsOutOfRange
          else
            let tag = drop 1 (take (length v - 2) v);
                tagValue = Get uq tag ''gorm'' in
            if tagValue \<noteq> [] then Inr (tokenLoop (Split tagValue (CHR 0x3B)) field)
            else
              let tagValue = Get uq tag ''json'' in
              if tagValue \<noteq> [] then Inr (field\<lparr>Column := tagValue\<rparr>)
              else Inr (field\<lparr>Column := snakeString (Name field)\<rparr>))"

text \<open>Lines 243 to 251: the pointer stars are stripped and counted.\<close>

fun stripStars :: "'o Expr \<Rightarrow> nat \<Rightarrow> 'o Expr \<times> nat" where
  "stripStars (StarExpr x) starLoop = stripStars x (starLoop + 1)"
| "stripStars afType starLoop = (afType, starLoop)"

text \<open>Lines 257 to 263: the type switch; \<open>typ.X.(*ast.Ident)\<close> panics on another node.\<close>

fun setType :: "'o Expr \<Rightarrow> ModelFieldInfo \<Rightarrow> fault + ModelFieldInfo" where
  "setType (Ident name obj) field = Inr (field\<lparr>Type := name\<rparr>)"
| "setType (SelectorExpr (Ident xname obj) sel) field =
     Inr (field\<lparr>Type := xname @ ''.'' @ sel\<rparr>)"
| "setType (SelectorExpr x sel) field = Inl TypeAssertionFailed"
| "setType afType field = Inr field"

text \<open>
  \<open>af.Names[0]\<close> panics on a field without names. The deferred function puts one
  \<open>*\<close> per stripped star in front of the type when the function returns.
\<close>

definition buildModelFieldInfo ::
  "(string \<Rightarrow> string option) \<Rightarrow> 'o Field \<Rightarrow> fault + ModelFieldInfo" where
  "buildModelFieldInfo uq af =
     (case Names af of
        [] \<Rightarrow> Inl IndexOutOfRange
      | name # _ \<Rightarrow>
          (case setColumn uq (Tag af) (zeroField\<lparr>Name := name\<rparr>) of
             Inl e \<Rightarrow> Inl e
           | Inr field1 \<Rightarrow>
               (case stripStars (FieldType af) 0 of
                  (afType, starLoop) \<Rightarrow>
                    (case setType afType field1 of
                       Inl e \<Rightarrow> Inl e
                     | Inr field2 \<Rightarrow>
                         Inr (field2\<lparr>Type := ((\<lambda>t. ''*'' @ t) ^^ starLoop) (Type field2)\<rparr>)))))"

subsection \<open>\<open>buildModelInfo\<close>\<close>

text \<open>
  The loop of lines 207 to 216 over \<open>objFields\<close>, from index \<open>i\<close>; \<open>mFields\<close> is
  \<open>m.Fields\<close> and \<open>primaryKey\<close> the pointer into it, kept as the index it points at.
\<close>

fun fieldsLoop ::
  "(string \<Rightarrow> string option) \<Rightarrow> nat \<Rightarrow> unit Field list \<Rightarrow> ModelFieldInfo list \<Rightarrow> nat option
     \<Rightarrow> fault + (ModelFieldInfo list \<times> nat option)" where
  "fieldsLoop uq i [] mFields primaryKey = Inr (mFields, primaryKey)"
| "fieldsLoop uq i (filed # rest) mFields primaryKey =
     (case buildModelFieldInfo uq filed of
        Inl e \<Rightarrow> Inl e
      | Inr f \<Rightarrow>
          let mFields1 = mFields[i := f] in
          if PrimaryKey (mFields1 ! i) then fieldsLoop uq (i + 1) rest mFields1 (Some i)
          else if primaryKey = None \<and> Column (mFields1 ! i) = ''id''
          then fieldsLoop uq (i + 1) rest mFields1 (Some i)
          else fieldsLoop uq (i + 1) rest mFields1 primaryKey)"

text \<open>
  \<open>obj\<close> is nil when the receiver's identifier did not resolve; the two type assertions
  of line 204 panic on a declaration that is not a struct type.
\<close>

definition buildModelInfo ::
  "(string \<Rightarrow> string option) \<Rightarrow> Object option \<Rightarrow> fault + ModelInfo" where
  "buildModelInfo uq obj =
     (case obj of
        None \<Rightarrow> Inl NilDereference
      | Some ob \<Rightarrow>
          (case ObjDecl ob of
             TypeSpec (StructType objFields) \<Rightarrow>
               (case fieldsLoop uq 0 objFields (replicate (length objFields) zeroField) None of
                  Inl e \<Rightarrow> Inl e
                | Inr (mFields, primaryKey) \<Rightarrow>
                    Inr \<lparr>ModelName = ObjName ob,
                         Fields =
                           (case primaryKey of
                              None \<Rightarrow> mFields
                            | Some k \<Rightarrow> mFields[k := (mFields ! k)\<lparr>PrimaryKey := True\<rparr>]),
                         ModelComments = []\<rparr>)
           | _ \<Rightarrow> Inl TypeAssertionFailed))"

subsection \<open>\<open>isTablerFunc\<close> and \<open>getModelObjects\<close>\<close>

definition funcName :: string where
  "funcName = ''TableName''"

definition stringName :: string where
  "stringName = ''string''"

text \<open>
  The result is the pair the Go function returns, or the panic it ends in. Reading
  \<open>.List\<close> through a nil \<open>*ast.FieldList\<close> is a nil dereference.
\<close>

definition isTablerFunc :: "FuncDecl \<Rightarrow> fault + (Object option \<times> bool)" where
  "isTablerFunc decl =
     (case Recv decl of
        None \<Rightarrow> Inl NilDereference
      | Some recv \<Rightarrow>
          if length recv = 0 then Inr (None, False)
          else if FuncName decl \<noteq> funcName then Inr (None, False)
          else
            (case Params decl of
               None \<Rightarrow> Inl NilDereference
             | Some params \<Rightarrow>
                 if length params > 0 then Inr (None, False)
                 else
                   (case Results decl of
                      None \<Rightarrow> Inl NilDereference
                    | Some results \<Rightarrow>
                        if length results \<noteq> 1 then Inr (None, False)
                        else if (case FieldType (results ! 0) of
                                   Ident name obj \<Rightarrow> name \<noteq> stringName
                                 | _ \<Rightarrow> True)
                        then Inr (None, False)
                        else
                          (case FieldType (recv ! 0) of
                             StarExpr x \<Rightarrow>
                               (case x of
                                  Ident name obj \<Rightarrow> Inr (obj, True)
                                | _ \<Rightarrow> Inr (None, False))
                           | Ident name obj \<Rightarrow> Inr (obj, True)
                           | _ \<Rightarrow> Inr (None, False)))))"

text \<open>
  The package-level state \<open>getModelObjects\<close> touches: the \<open>sync.Once\<close> (its done flag)
  and \<open>packageMap\<close>. \<open>seedCount\<close> is not in the program: it counts how often the
  function passed to \<open>once.Do\<close> has run, so that "exactly once" can be stated.
\<close>

record RunState =
  onceDone :: bool
  packageMap :: "string \<rightharpoonup> string"
  seedCount :: nat

definition freshState :: RunState where
  "freshState = \<lparr>onceDone = False, packageMap = Map.empty, seedCount = 0\<rparr>"

text \<open>
  Lines 64 to 66 for one entry of \<open>files\<close>. An entry is nil when the parser could not
  read the file, and \<open>file.Name\<close> then panics.
\<close>

definition onceDo :: "Strategy \<Rightarrow> File option \<Rightarrow> RunState \<Rightarrow> fault + RunState" where
  "onceDo Build file st =
     (if onceDone st then Inr st
      else
        (case file of
           None \<Rightarrow> Inl NilDereference
         | Some f \<Rightarrow>
             Inr (st\<lparr>onceDone := True,
                     packageMap := (packageMap st)(PackageKey Build \<mapsto> PkgName f),
                     seedCount := seedCount st + 1\<rparr>)))"

text \<open>The inner loop, lines 67 to 73.\<close>

fun declsLoop :: "Decl list \<Rightarrow> Object option list \<Rightarrow> fault + Object option list" where
  "declsLoop [] objects = Inr objects"
| "declsLoop (FuncDeclNode decl # vs) objects =
     (case isTablerFunc decl of
        Inl e \<Rightarrow> Inl e
      | Inr (obj, ok) \<Rightarrow>
          if ok then declsLoop vs (objects @ [obj]) else declsLoop vs objects)"
| "declsLoop (v # vs) objects = declsLoop vs objects"

text \<open>The outer loop, lines 63 to 74.\<close>

fun filesLoop ::
  "Strategy \<Rightarrow> File option list \<Rightarrow> RunState \<Rightarrow> Object option list
     \<Rightarrow> fault + (Object option list \<times> RunState)" where
  "filesLoop Build [] st objects = Inr (objects, st)"
| "filesLoop Build (file # files) st objects =
     (case onceDo Build file st of
        Inl e \<Rightarrow> Inl e
      | Inr st1 \<Rightarrow>
          (case file of
             None \<Rightarrow> Inl NilDereference
           | Some f \<Rightarrow>
               (case declsLoop (Decls f) objects of
                  Inl e \<Rightarrow> Inl e
                | Inr objects1 \<Rightarrow> filesLoop Build files st1 objects1)))"

definition getModelObjects ::
  "Strategy \<Rightarrow> File option list \<Rightarrow> RunState \<Rightarrow> fault + (Object option list \<times> RunState)" where
  "getModelObjects Build files st = filesLoop Build files st []"

subsection \<open>\<open>generateFile\<close>\<close>

text \<open>
  The local variables of \<open>generateFile\<close>, and \<open>written\<close>: the files \<open>save\<close> has written so
  far, in the order of writing, each with its index and its bytes. The name of a file is
  the prefix, the index in decimal and \<open>.go\<close>, so the index stands for the name.
\<close>

record EmitState =
  buffer :: string
  index :: nat
  setHeader :: bool
  written :: "(nat \<times> string) list"

text \<open>The closure \<open>setFileHeader\<close>, lines 91 to 97; \<open>hExecute\<close> is what \<open>hTemplate.Execute\<close> does.\<close>

definition setFileHeader ::
  "string \<times> error option \<Rightarrow> EmitState \<Rightarrow> (error \<times> EmitState) + EmitState" where
  "setFileHeader hExecute st =
     (let st1 = st\<lparr>buffer := buffer st @ fst hExecute\<rparr> in
      case snd hExecute of
        Some err \<Rightarrow> Inl (err, st1)
      | None \<Rightarrow> Inr (st1\<lparr>setHeader := True\<rparr>))"

text \<open>
  The closure \<open>save\<close>, lines 98 to 112. \<open>wr i bytes\<close> is the outcome of creating the file of
  index \<open>i\<close> and writing \<open>bytes\<close> to it: \<open>None\<close> when both succeed, the error otherwise.
\<close>

definition save ::
  "(nat \<Rightarrow> string \<Rightarrow> error option) \<Rightarrow> EmitState \<Rightarrow> (error \<times> EmitState) + EmitState" where
  "save wr st =
     (case wr (index st) (buffer st) of
        Some err \<Rightarrow> Inl (err, st)
      | None \<Rightarrow>
          Inr (st\<lparr>written := written st @ [(index st, buffer st)],
                  index := index st + 1,
                  buffer := [],
                  setHeader := False\<rparr>))"

text \<open>
  The loop of lines 113 to 127. The error of \<open>cTemplate.Execute\<close> is assigned to \<open>err\<close>
  and never read: what \<open>Execute\<close> wrote stays in the buffer and the loop goes on.
\<close>

fun modelsLoop ::
  "int \<Rightarrow> string \<times> error option \<Rightarrow> (ModelInfo \<Rightarrow> string \<times> error option)
     \<Rightarrow> (nat \<Rightarrow> string \<Rightarrow> error option) \<Rightarrow> ModelInfo list \<Rightarrow> EmitState
     \<Rightarrow> (error \<times> EmitState) + EmitState" where
  "modelsLoop maxSize hExecute cExecute wr [] st = Inr st"
| "modelsLoop maxSize hExecute cExecute wr (v # vs) st =
     (case (if \<not> setHeader st then setFileHeader hExecute st else Inr st) of
        Inl e \<Rightarrow> Inl e
      | Inr st1 \<Rightarrow>
          let st2 = st1\<lparr>buffer := buffer st1 @ fst (cExecute v)\<rparr>;
              size = int (length (buffer st2)) in
          if size < maxSize then modelsLoop maxSize hExecute cExecute wr vs st2
          else
            (case save wr st2 of
               Inl e \<Rightarrow> Inl e
             | Inr st3 \<Rightarrow> modelsLoop maxSize hExecute cExecute wr vs st3))"

definition initState :: EmitState where
  "initState = \<lparr>buffer = [], index = 0, setHeader = False, written = []\<rparr>"

text \<open>
  The result is the error \<open>generateFile\<close> returns (\<open>None\<close> for nil) and the files it has
  written in full when it returns; a file whose creation or write failed is not among
  them. \<open>wr\<close> is the file system, as for \<open>save\<close>; \<open>pkgMap\<close> is the package-level
  \<open>packageMap\<close>, which \<open>generateFile\<close> only reads.
\<close>

definition generateFile ::
  "Strategy \<Rightarrow> (nat \<Rightarrow> string \<Rightarrow> error option) \<Rightarrow> (string \<rightharpoonup> string) \<Rightarrow> ModelInfo list
     \<Rightarrow> error option \<times> (nat \<times> string) list" where
  "generateFile Build wr pkgMap models =
     (case HeaderTemplate Build of
        Inl err \<Rightarrow> (Some err, [])
      | Inr hTemplate \<Rightarrow>
          (case ContentTemplate Build of
             Inl err \<Rightarrow> (Some err, [])
           | Inr cTemplate \<Rightarrow>
               (case modelsLoop (FileMaxSize Build) (hTemplate pkgMap) cTemplate wr models
                       initState of
                  Inl (err, st) \<Rightarrow> (Some err, written st)
                | Inr st \<Rightarrow>
                    if length (buffer st) = 0 then (None, written st)
                    else
                      (case save wr st of
                         Inl (err, st1) \<Rightarrow> (Some err, written st1)
                       | Inr st1 \<Rightarrow> (None, written st1)))))"

section \<open>Definitions for stating the properties\<close>

subsection \<open>Snake case, as the specification words it\<close>

text \<open>
  The first step of the transliteration is on bytes in either reading: \<open>replaceID\<close>
  replaces every \<open>ID\<close>, from the left and without overlap, by \<open>id\<close>.
\<close>

fun replaceID :: "string \<Rightarrow> string" where
  "replaceID [] = []"
| "replaceID [c] = [c]"
| "replaceID (a # b # cs) =
     (if a = CHR ''I'' \<and> b = CHR ''D'' then ''id'' @ replaceID cs else a # replaceID (b # cs))"

text \<open>
  A character is a rune of the UTF-8 text. \<open>decodeRunes\<close> is the conversion \<open>[]rune(s)\<close>
  (a byte that starts no well-formed sequence gives \<open>U+FFFD\<close>), \<open>encodeRune\<close> the UTF-8
  encoding of one rune.
\<close>

definition continuation :: "char \<Rightarrow> bool" where
  "continuation b = (CHR 0x80 \<le> b \<and> b \<le> CHR 0xBF)"

definition low6 :: "char \<Rightarrow> int" where
  "low6 b = of_char b - 0x80"

fun decodeRunes :: "string \<Rightarrow> int list" where
  "decodeRunes [] = []"
| "decodeRunes (b0 # bs) =
     (let n0 = of_char b0 :: int in
      if n0 < 0x80 then n0 # decodeRunes bs
      else if 0xC2 \<le> n0 \<and> n0 \<le> 0xDF then
        (case bs of
           b1 # bs1 \<Rightarrow>
             if continuation b1 then ((n0 - 0xC0) * 0x40 + low6 b1) # decodeRunes bs1
             else 0xFFFD # decodeRunes bs
         | _ \<Rightarrow> 0xFFFD # decodeRunes bs)
      else if 0xE0 \<le> n0 \<and> n0 \<le> 0xEF then
        (case bs of
           b1 # b2 # bs2 \<Rightarrow>
             if continuation b1 \<and> continuation b2 \<and>
                (if n0 = 0xE0 then CHR 0xA0 \<le> b1 else True) \<and>
                (if n0 = 0xED then b1 \<le> CHR 0x9F else True)
             then ((n0 - 0xE0) * 0x1000 + low6 b1 * 0x40 + low6 b2) # decodeRunes bs2
             else 0xFFFD # decodeRunes bs
         | _ \<Rightarrow> 0xFFFD # decodeRunes bs)
      else if 0xF0 \<le> n0 \<and> n0 \<le> 0xF4 then
        (case bs of
           b1 # b2 # b3 # bs3 \<Rightarrow>
             if continuation b1 \<and> continuation b2 \<and> continuation b3 \<and>
                (if n0 = 0xF0 then CHR 0x90 \<le> b1 else True) \<and>
                (if n0 = 0xF4 then b1 \<le> CHR 0x8F else True)
             then ((n0 - 0xF0) * 0x40000 + low6 b1 * 0x1000 + low6 b2 * 0x40 + low6 b3)
                    # decodeRunes bs3
             else 0xFFFD # decodeRunes bs
         | _ \<Rightarrow> 0xFFFD # decodeRunes bs)
      else 0xFFFD # decodeRunes bs)"

definition encodeRune :: "int \<Rightarrow> string" where
  "encodeRune r =
     (let r = (if r < 0 \<or> 0x10FFFF < r \<or> (0xD800 \<le> r \<and> r \<le> 0xDFFF) then 0xFFFD else r) in
      if r < 0x80 then [char_of r]
      else if r < 0x800 then [char_of (0xC0 + r div 0x40), char_of (0x80 + r mod 0x40)]
      else if r < 0x10000 then
        [char_of (0xE0 + r div 0x1000), char_of (0x80 + r div 0x40 mod 0x40),
         char_of (0x80 + r mod 0x40)]
      else
        [char_of (0xF0 + r div 0x40000), char_of (0x80 + r div 0x1000 mod 0x40),
         char_of (0x80 + r div 0x40 mod 0x40), char_of (0x80 + r mod 0x40)])"

text \<open>
  The specification's transliteration, in its words: every \<open>ID\<close> becomes \<open>id\<close>; then an
  underscore goes before each uppercase letter that is not the first character, and every
  letter is lowercased. Which runes are uppercase letters and what their lowercase is are
  Unicode's tables, which are no part of the repository: they are the parameters \<open>upper\<close>
  and \<open>lower\<close>.
\<close>

fun underscoreBefore :: "(int \<Rightarrow> bool) \<Rightarrow> int list \<Rightarrow> int list" where
  "underscoreBefore upper [] = []"
| "underscoreBefore upper (r # rs) =
     (if upper r then 0x5F # r # underscoreBefore upper rs else r # underscoreBefore upper rs)"

definition spec_snakeCase :: "(int \<Rightarrow> bool) \<Rightarrow> (int \<Rightarrow> int) \<Rightarrow> string \<Rightarrow> string" where
  "spec_snakeCase upper lower name =
     concat (map encodeRune
       (case decodeRunes (replaceID name) of
          [] \<Rightarrow> []
        | r # rs \<Rightarrow> map lower (r # underscoreBefore upper rs)))"

text \<open>
  Unicode's tables up to \<open>U+00FF\<close>: the uppercase letters there are \<open>A\<close> to \<open>Z\<close> and
  \<open>U+00C0\<close> to \<open>U+00DE\<close> without the multiplication sign \<open>U+00D7\<close>, and the lowercase of
  each lies \<open>0x20\<close> above it.
\<close>

definition latin1Upper :: "int \<Rightarrow> bool" where
  "latin1Upper r = ((0x41 \<le> r \<and> r \<le> 0x5A) \<or> (0xC0 \<le> r \<and> r \<le> 0xDE \<and> r \<noteq> 0xD7))"

definition latin1Lower :: "int \<Rightarrow> int" where
  "latin1Lower r = (if latin1Upper r then r + 0x20 else r)"

text \<open>
  The transliteration with the ASCII letters only: the uppercase letters are the bytes
  \<open>A\<close> to \<open>Z\<close>, and every other byte is left as it is.
\<close>

definition asciiUpper :: "char \<Rightarrow> bool" where
  "asciiUpper c = (CHR ''A'' \<le> c \<and> c \<le> CHR ''Z'')"

definition asciiLower :: "char \<Rightarrow> char" where
  "asciiLower c = (if asciiUpper c then char_of (of_char c + (32::nat)) else c)"

fun underscoreUpper :: "string \<Rightarrow> string" where
  "underscoreUpper [] = []"
| "underscoreUpper (c # cs) =
     (if asciiUpper c then CHR ''_'' # c # underscoreUpper cs else c # underscoreUpper cs)"

definition ascii_snakeCase :: "string \<Rightarrow> string" where
  "ascii_snakeCase name =
     (case replaceID name of [] \<Rightarrow> [] | c # cs \<Rightarrow> map asciiLower (c # underscoreUpper cs))"

text \<open>
  A field declaration without annotation: no tag, or a tag literal that holds, between
  its quotes, neither a gorm nor a json value.
\<close>

definition tagBody :: "string \<Rightarrow> string" where
  "tagBody v = drop 1 (butlast v)"

definition noAnnotation :: "(string \<Rightarrow> string option) \<Rightarrow> 'o Field \<Rightarrow> bool" where
  "noAnnotation uq af =
     (case Tag af of
        None \<Rightarrow> True
      | Some v \<Rightarrow> Get uq (tagBody v) ''gorm'' = [] \<and> Get uq (tagBody v) ''json'' = [])"

subsection \<open>Primary-key flags\<close>

text \<open>
  \<open>firstOnly bs\<close> keeps the first \<open>True\<close> of \<open>bs\<close> and clears the others. \<open>pkScan\<close> is
  the pointer \<open>primaryKey\<close> after the loop of \<open>buildModelInfo\<close>, as a function of the
  fields the resolver returned.
\<close>

fun firstOnly :: "bool list \<Rightarrow> bool list" where
  "firstOnly [] = []"
| "firstOnly (b # bs) = (if b then True # map (\<lambda>_. False) bs else False # firstOnly bs)"

definition isId :: "ModelFieldInfo \<Rightarrow> bool" where
  "isId f = (Column f = ''id'')"

fun pkScan :: "nat \<Rightarrow> ModelFieldInfo list \<Rightarrow> nat option \<Rightarrow> nat option" where
  "pkScan i [] primaryKey = primaryKey"
| "pkScan i (f # fs) primaryKey =
     (if PrimaryKey f then pkScan (i + 1) fs (Some i)
      else if primaryKey = None \<and> Column f = ''id'' then pkScan (i + 1) fs (Some i)
      else pkScan (i + 1) fs primaryKey)"

subsection \<open>The bytes of an output file\<close>

text \<open>
  \<open>blocks cExecute g\<close> is what \<open>cTemplate.Execute\<close> wrote for the models of \<open>g\<close>, one block
  after the other; \<open>fileBytes h cExecute g\<close> is the header rendering \<open>h\<close> followed by these
  blocks.
\<close>

definition blocks :: "(ModelInfo \<Rightarrow> string \<times> error option) \<Rightarrow> ModelInfo list \<Rightarrow> string" where
  "blocks cExecute g = concat (map (\<lambda>v. fst (cExecute v)) g)"

definition fileBytes ::
  "string \<Rightarrow> (ModelInfo \<Rightarrow> string \<times> error option) \<Rightarrow> ModelInfo list \<Rightarrow> string" where
  "fileBytes h cExecute g = h @ blocks cExecute g"

section \<open>Concrete inputs\<close>

text \<open>
  An escape processing for the examples; their tags hold no escape sequence, so it is
  never reached.
\<close>

definition noEscapes :: "string \<Rightarrow> string option" where
  "noEscapes q = None"

subsection \<open>Struct types\<close>

definition idField :: "unit Field" where
  "idField = \<lparr>Names = [''ID''], FieldType = Ident ''int64'' None, Tag = None\<rparr>"

definition userIdField :: "unit Field" where
  \<open>userIdField =
     \<lparr>Names = [''UserID''], FieldType = Ident ''int64'' None,
      Tag = Some ''`gorm:"column:user_id;primaryKey" json:"user_id"`''\<rparr>\<close>

definition groupIdField :: "unit Field" where
  \<open>groupIdField =
     \<lparr>Names = [''GroupID''], FieldType = Ident ''int64'' None,
      Tag = Some ''`gorm:"column:group_id;primaryKey" json:"group_id"`''\<rparr>\<close>

definition compositeKey :: Object where
  "compositeKey =
     \<lparr>ObjName = ''Membership'', ObjDecl = TypeSpec (StructType [userIdField, groupIdField])\<rparr>"

definition codeField :: "unit Field" where
  \<open>codeField =
     \<lparr>Names = [''Code''], FieldType = Ident ''string'' None,
      Tag = Some ''`gorm:"column:code;primaryKey" json:"code"`''\<rparr>\<close>

definition titleField :: "unit Field" where
  "titleField = \<lparr>Names = [''Title''], FieldType = StarExpr (Ident ''string'' None), Tag = None\<rparr>"

definition idThenKey :: Object where
  "idThenKey =
     \<lparr>ObjName = ''Product'', ObjDecl = TypeSpec (StructType [idField, codeField, titleField])\<rparr>"

definition tenantField :: "unit Field" where
  \<open>tenantField =
     \<lparr>Names = [''Tenant''], FieldType = Ident ''string'' None,
      Tag = Some ''`gorm:"primary_key;column:tenant" json:"tenant"`''\<rparr>\<close>

definition serialField :: "unit Field" where
  \<open>serialField =
     \<lparr>Names = [''Serial''], FieldType = Ident ''int'' None,
      Tag = Some ''`gorm:"column:serial;primaryKey" json:"serial"`''\<rparr>\<close>

definition threeKeys :: Object where
  "threeKeys =
     \<lparr>ObjName = ''Ledger'', ObjDecl = TypeSpec (StructType [idField, tenantField, serialField])\<rparr>"

definition nameField :: "unit Field" where
  "nameField = \<lparr>Names = [''Name''], FieldType = Ident ''string'' None, Tag = None\<rparr>"

definition keyField :: "unit Field" where
  \<open>keyField =
     \<lparr>Names = [''Key''], FieldType = Ident ''string'' None,
      Tag = Some ''`json:"id" xml:"key"`''\<rparr>\<close>

definition onlyId :: Object where
  "onlyId =
     \<lparr>ObjName = ''Tag'', ObjDecl = TypeSpec (StructType [nameField, idField, keyField])\<rparr>"

definition untaggedField :: "unit Field" where
  "untaggedField = \<lparr>Names = [''UserID''], FieldType = Ident ''int64'' None, Tag = None\<rparr>"

definition otherKeysField :: "unit Field" where
  \<open>otherKeysField =
     \<lparr>Names = [''UserName''], FieldType = Ident ''string'' None,
      Tag = Some ''`xml:"u" yaml:"u"`''\<rparr>\<close>

text \<open>
  The field name \<open>Name\<close>, \<open>U+00C9\<close> (E with acute accent, the bytes \<open>C3 89\<close>), \<open>cole\<close>.
\<close>

definition ecoleName :: string where
  "ecoleName = ''Name'' @ [CHR 0xC3, CHR 0x89] @ ''cole''"

definition ecoleField :: "unit Field" where
  "ecoleField = \<lparr>Names = [ecoleName], FieldType = Ident ''string'' None, Tag = None\<rparr>"

definition lastKeyField :: "unit Field" where
  \<open>lastKeyField =
     \<lparr>Names = [''Name''], FieldType = Ident ''string'' None,
      Tag = Some ''`gorm:"column:foo"`''\<rparr>\<close>

definition jsonFirstField :: "unit Field" where
  \<open>jsonFirstField =
     \<lparr>Names = [''Name''], FieldType = Ident ''string'' None,
      Tag = Some ''`json:"full_name" gorm:"column:foo"`''\<rparr>\<close>

definition twoColumnsField :: "unit Field" where
  \<open>twoColumnsField =
     \<lparr>Names = [''Name''], FieldType = Ident ''string'' None,
      Tag = Some ''`gorm:"column:foo;column:bar" json:"full_name"`''\<rparr>\<close>

definition keyOnlyField :: "unit Field" where
  \<open>keyOnlyField =
     \<lparr>Names = [''Name''], FieldType = Ident ''string'' None,
      Tag = Some ''`gorm:"primaryKey" json:"name"`''\<rparr>\<close>

subsection \<open>Declarations and source units\<close>

definition userObject :: Object where
  "userObject = \<lparr>ObjName = ''User'',
       ObjDecl = TypeSpec (StructType
         [\<lparr>Names = [''ID''], FieldType = Ident ''int64'' None, Tag = None\<rparr>])\<rparr>"

definition receiverUser :: "Object Field" where
  "receiverUser = \<lparr>Names = [''u''], FieldType = Ident ''User'' (Some userObject), Tag = None\<rparr>"

definition stringResult :: "Object Field" where
  "stringResult = \<lparr>Names = [], FieldType = Ident ''string'' None, Tag = None\<rparr>"

definition tableNameMethod :: FuncDecl where
  "tableNameMethod = \<lparr>Recv = Some [receiverUser], FuncName = ''TableName'',
       Params = Some [], Results = Some [stringResult]\<rparr>"

definition otherMethod :: FuncDecl where
  "otherMethod = \<lparr>Recv = Some [receiverUser], FuncName = ''String'',
       Params = Some [], Results = Some [stringResult]\<rparr>"

definition plainFunction :: FuncDecl where
  "plainFunction = \<lparr>Recv = None, FuncName = ''NewUser'',
       Params = Some [], Results = Some [stringResult]\<rparr>"

definition tableNameNoResult :: FuncDecl where
  "tableNameNoResult = \<lparr>Recv = Some [receiverUser], FuncName = ''TableName'',
       Params = Some [], Results = None\<rparr>"

definition modelsFile :: File where
  "modelsFile = \<lparr>PkgName = ''models'',
       Decls = [GenDeclNode, FuncDeclNode tableNameMethod, FuncDeclNode otherMethod]\<rparr>"

definition auditFile :: File where
  "auditFile = \<lparr>PkgName = ''audit'', Decls = [GenDeclNode, FuncDeclNode tableNameMethod]\<rparr>"

definition helpersFile :: File where
  "helpersFile = \<lparr>PkgName = ''models'', Decls = [GenDeclNode, FuncDeclNode plainFunction]\<rparr>"

subsection \<open>Models and strategies\<close>

definition userModel :: ModelInfo where
  "userModel = \<lparr>ModelName = ''User'',
       Fields = [\<lparr>Name = ''ID'', Type = ''int64'', Column = ''id'', PrimaryKey = True,
                  Comments = []\<rparr>],
       ModelComments = []\<rparr>"

definition emptyModel :: ModelInfo where
  "emptyModel = \<lparr>ModelName = ''Marker'', Fields = [], ModelComments = []\<rparr>"

definition named :: "string \<Rightarrow> ModelInfo" where
  "named n = \<lparr>ModelName = n, Fields = [], ModelComments = []\<rparr>"

text \<open>A file system on which every file is created and written.\<close>

definition allWritten :: "nat \<Rightarrow> string \<Rightarrow> error option" where
  "allWritten i bytes = None"

text \<open>
  A header that needs the package name of \<open>packageMap\<close>, and a content template whose
  block has 30 bytes for every model.
\<close>

definition packageHeader :: "(string \<rightharpoonup> string) \<Rightarrow> string \<times> error option" where
  "packageHeader pkgMap =
     (case pkgMap ''pkg'' of
        None \<Rightarrow> (''package '', Some TemplateExecError)
      | Some n \<Rightarrow> (''package '' @ n, None))"

definition paddedBlock :: "ModelInfo \<Rightarrow> string \<times> error option" where
  "paddedBlock m = (take 30 (ModelName m @ replicate 30 (CHR ''.'')), None)"

definition scenarioBuild :: Strategy where
  "scenarioBuild = \<lparr>PackageKey = ''pkg'', FileMaxSize = 50,
       HeaderTemplate = Inr packageHeader, ContentTemplate = Inr paddedBlock\<rparr>"

definition scenarioModels :: "ModelInfo list" where
  "scenarioModels = [named ''A'', named ''B'', named ''C'', named ''D'', named ''E'']"

text \<open>
  A strategy without header text whose content template writes one entry per field, so
  nothing for a struct without fields.
\<close>

definition fieldsOnly :: "ModelInfo \<Rightarrow> string \<times> error option" where
  "fieldsOnly m = (concat (map (\<lambda>f. Column f @ '';'') (Fields m)), None)"

definition silentBuild :: Strategy where
  "silentBuild = \<lparr>PackageKey = ''pkg'', FileMaxSize = 1,
       HeaderTemplate = Inr (\<lambda>pkgMap. ([], None)), ContentTemplate = Inr fieldsOnly\<rparr>"

text \<open>
  A content template that fails on a model without primary key, after it has written the
  start of the block.
\<close>

definition needsKey :: "ModelInfo \<Rightarrow> string \<times> error option" where
  "needsKey m =
     (case filter PrimaryKey (Fields m) of
        [] \<Rightarrow> (''type '' @ ModelName m, Some TemplateExecError)
      | f # _ \<Rightarrow> (''type '' @ ModelName m @ '' key '' @ Column f @ '';'', None))"

definition needsKeyBuild :: Strategy where
  "needsKeyBuild = \<lparr>PackageKey = ''pkg'', FileMaxSize = 1000,
       HeaderTemplate = Inr packageHeader, ContentTemplate = Inr needsKey\<rparr>"

section \<open>The resolver\<close>

subsection \<open>\<open>snakeString\<close> is the transliteration of the ASCII letters\<close>

lemma ReplaceAll_ID: "ReplaceAll s ''ID'' ''id'' = replaceID s"
proof (induction s rule: replaceID.induct)
  case 1
  show ?case by (subst ReplaceAll.simps) simp
next
  case (2 c)
  show ?case
    by (subst ReplaceAll.simps, simp add: HasPrefix_def, subst ReplaceAll.simps, simp)
next
  case (3 a b cs)
  show ?case
  proof (cases "a = CHR ''I'' \<and> b = CHR ''D''")
    case True
    then show ?thesis
      using 3(1) by (subst ReplaceAll.simps) (simp add: HasPrefix_def)
  next
    case False
    then show ?thesis
      using 3(2) by (subst ReplaceAll.simps) (auto simp add: HasPrefix_def)
  qed
qed

lemma diff_32: "diff = 32"
  by (simp add: diff_def)

lemma asciiLower_underscore: "asciiLower (CHR ''_'') = CHR ''_''"
  by (simp add: asciiLower_def asciiUpper_def)

lemma snakeLoop_pos:
  "0 < i \<Longrightarrow> snakeLoop i vs sb = sb @ map asciiLower (underscoreUpper vs)"
proof (induction vs arbitrary: i sb)
  case Nil
  show ?case by simp
next
  case (Cons v vs)
  have "0 < Suc i" by simp
  note IH = Cons.IH [OF this]
  show ?case
    using Cons.prems
    by (simp add: IH asciiLower_underscore diff_32) (simp add: asciiLower_def asciiUpper_def)
qed

lemma snakeLoop_zero:
  "snakeLoop 0 (v # vs) [] = asciiLower v # map asciiLower (underscoreUpper vs)"
  by (simp add: snakeLoop_pos diff_32 asciiLower_def asciiUpper_def)

lemma snakeString_ascii: "snakeString name = ascii_snakeCase name"
proof (cases "replaceID name")
  case Nil
  then show ?thesis
    by (simp add: snakeString_def ascii_snakeCase_def ReplaceAll_ID)
next
  case (Cons c cs)
  then show ?thesis
    by (simp add: snakeString_def ascii_snakeCase_def ReplaceAll_ID snakeLoop_zero
        del: snakeLoop.simps)
qed

lemma setType_Column: "setType t f = Inr f' \<Longrightarrow> Column f' = Column f \<and> Name f' = Name f \<and> PrimaryKey f' = PrimaryKey f"
  by (induction t f rule: setType.induct) auto

lemma buildModelFieldInfo_Inr:
  assumes "buildModelFieldInfo uq af = Inr fld"
  shows "\<exists>name rest field1. Names af = name # rest \<and>
           setColumn uq (Tag af) (zeroField\<lparr>Name := name\<rparr>) = Inr field1 \<and>
           Name fld = Name field1 \<and> Column fld = Column field1 \<and> PrimaryKey fld = PrimaryKey field1"
  using assms
  by (auto simp: buildModelFieldInfo_def split: list.splits sum.splits prod.splits
      dest!: setType_Column)

subsection \<open>A tag without gorm and json value\<close>

text \<open>
  A value that \<open>Lookup\<close> finds in the beginning of a tag it finds in the whole tag. So the
  slice of line 228, which is one byte short, shows no gorm or json value where the tag
  has none.
\<close>

lemma scanQuoted_append:
  "scanQuoted xs < length xs \<Longrightarrow> scanQuoted (xs @ s) = scanQuoted xs"
proof (induction xs rule: scanQuoted.induct)
  case 1
  then show ?case by simp
next
  case (2 c cs)
  show ?case
  proof (cases "c = dquote")
    case True
    then show ?thesis by simp
  next
    case nq: False
    show ?thesis
    proof (cases "c = backslash")
      case True
      show ?thesis
      proof (cases cs)
        case Nil
        then show ?thesis using "2.prems" nq True by simp
      next
        case (Cons c' cs')
        then have "scanQuoted cs' < length cs'"
          using "2.prems" nq True by simp
        then have "scanQuoted (cs' @ s) = scanQuoted cs'"
          using "2.IH"(1) nq True Cons by simp
        then show ?thesis using nq True Cons by simp
      qed
    next
      case False
      then have "scanQuoted cs < length cs"
        using "2.prems" nq by simp
      then have "scanQuoted (cs @ s) = scanQuoted cs"
        using "2.IH"(2) nq False by simp
      then show ?thesis using nq False by simp
    qed
  qed
qed

lemma Lookup_step:
  assumes "tag1 = dropWhile (\<lambda>c. c = CHR 0x20) tag"
    and "i = length (takeWhile
               (\<lambda>c. CHR 0x20 < c \<and> c \<noteq> CHR 0x3A \<and> c \<noteq> dquote \<and> c \<noteq> CHR 0x7F) tag1)"
    and "tag2 = drop (i + 1) tag1"
    and "j = 1 + scanQuoted (drop 1 tag2)"
  shows "Lookup uq tag key =
      (if tag1 = [] then None
       else if i = 0 \<or> length tag1 \<le> i + 1 \<or> tag1 ! i \<noteq> CHR 0x3A \<or> tag1 ! (i + 1) \<noteq> dquote
       then None
       else if length tag2 \<le> j then None
       else if key = take i tag1 then Unquote uq (take (j + 1) tag2)
       else Lookup uq (drop (j + 1) tag2) key)"
  by (subst Lookup.simps) (simp add: assms Let_def)

lemma Lookup_append:
  "Lookup uq p key = Some v \<Longrightarrow> Lookup uq (p @ s) key = Some v"
proof (induction "length p" arbitrary: p rule: less_induct)
  case less
  define p1 where "p1 = dropWhile (\<lambda>c. c = CHR 0x20) p"
  define i where "i = length (takeWhile
      (\<lambda>c. CHR 0x20 < c \<and> c \<noteq> CHR 0x3A \<and> c \<noteq> dquote \<and> c \<noteq> CHR 0x7F) p1)"
  define p2 where "p2 = drop (i + 1) p1"
  define j where "j = 1 + scanQuoted (drop 1 p2)"
  define p3 where "p3 = drop (j + 1) p2"
  note up = Lookup_step [OF p1_def i_def p2_def j_def, of uq key, folded p3_def]
  from less.prems up have ne: "p1 \<noteq> []"
    by (auto split: if_splits)
  from less.prems up ne have c: "i \<noteq> 0" "i + 1 < length p1" "p1 ! i = CHR 0x3A"
    "p1 ! (i + 1) = dquote"
    by (auto split: if_splits)
  from less.prems up ne c have jl: "j < length p2"
    by (auto split: if_splits)
  have d1: "p1 @ s = dropWhile (\<lambda>c. c = CHR 0x20) (p @ s)"
    using ne by (auto simp: p1_def dropWhile_append dropWhile_eq_Nil_conv)
  have "\<not> (CHR 0x20 < p1 ! i \<and> p1 ! i \<noteq> CHR 0x3A \<and> p1 ! i \<noteq> dquote \<and> p1 ! i \<noteq> CHR 0x7F)"
    using c(3) by simp
  moreover have "p1 ! i \<in> set p1"
    using c(2) by simp
  ultimately have t1: "i = length (takeWhile
      (\<lambda>c. CHR 0x20 < c \<and> c \<noteq> CHR 0x3A \<and> c \<noteq> dquote \<and> c \<noteq> CHR 0x7F) (p1 @ s))"
    unfolding i_def by (subst takeWhile_append1) auto
  have d2: "p2 @ s = drop (i + 1) (p1 @ s)"
    using c(2) by (simp add: p2_def)
  have "scanQuoted (drop 1 p2) < length (drop 1 p2)"
    using jl by (simp add: j_def)
  then have sq: "j = 1 + scanQuoted (drop 1 (p2 @ s))"
    using jl scanQuoted_append [of "drop 1 p2" s] by (cases p2) (auto simp: j_def)
  have d3: "drop (j + 1) (p2 @ s) = p3 @ s"
    using jl by (simp add: p3_def)
  note ut0 = Lookup_step [OF d1 t1 d2 sq, of uq key]
  have ut: "Lookup uq (p @ s) key =
      (if key = take i p1 then Unquote uq (take (j + 1) p2)
       else Lookup uq (p3 @ s) key)"
    unfolding ut0 d3 using ne c jl by (simp add: nth_append)
  show ?case
  proof (cases "key = take i p1")
    case True
    then show ?thesis
      using less.prems up ut ne c jl by (auto split: if_splits)
  next
    case False
    then have r: "Lookup uq p3 key = Some v"
      using less.prems up ne c jl by (auto split: if_splits)
    have "length p1 \<le> length p"
      by (simp add: p1_def length_dropWhile_le)
    then have "length p3 < length p"
      using ne c(2) by (simp add: p3_def p2_def)
    from less.hyps [OF this r] show ?thesis
      using False ut by simp
  qed
qed

lemma Get_butlast:
  assumes "Get uq t key = []"
  shows "Get uq (butlast t) key = []"
proof (cases "Lookup uq (butlast t) key")
  case None
  then show ?thesis by (simp add: Get_def)
next
  case (Some v)
  show ?thesis
  proof (cases "t = []")
    case True
    then show ?thesis using assms by simp
  next
    case False
    then have "t = butlast t @ [last t]" by simp
    with Lookup_append [OF Some, of "[last t]"] have "Lookup uq t key = Some v"
      by simp
    then show ?thesis
      using assms Some by (simp add: Get_def)
  qed
qed

lemma setColumn_noAnnotation:
  assumes "noAnnotation uq af" and "setColumn uq (Tag af) field = Inr field1"
  shows "field1 = field\<lparr>Column := snakeString (Name field)\<rparr>"
proof (cases "Tag af")
  case None
  then show ?thesis using assms(2) by (simp add: setColumn_def)
next
  case (Some v)
  show ?thesis
  proof (cases "v = []")
    case True
    then show ?thesis using assms(2) Some by (simp add: setColumn_def)
  next
    case False
    then have len: "3 \<le> length v"
      using assms(2) Some by (auto simp: setColumn_def split: if_splits)
    have "take (length v - 2) v = butlast (butlast v)"
      by (simp add: butlast_conv_take numeral_2_eq_2)
    then have sl: "drop (Suc 0) (take (length v - 2) v) = butlast (tagBody v)"
      by (simp add: tagBody_def butlast_drop)
    have "Get uq (tagBody v) ''gorm'' = []" "Get uq (tagBody v) ''json'' = []"
      using assms(1) Some by (simp_all add: noAnnotation_def)
    then have "Get uq (butlast (tagBody v)) ''gorm'' = []"
      "Get uq (butlast (tagBody v)) ''json'' = []"
      by (simp_all add: Get_butlast)
    then show ?thesis
      using assms(2) Some False len by (simp add: setColumn_def sl Let_def)
  qed
qed

subsection \<open>On ASCII names the two transliterations agree\<close>

lemma ascii_of_char: "c < CHR 0x80 \<Longrightarrow> (of_char c :: int) < 0x80"
  by (simp add: less_char_def of_nat_of_char [symmetric, where ?'a = int])

lemma latin1Upper_ascii: "c < CHR 0x80 \<Longrightarrow> latin1Upper (of_char c) = asciiUpper c"
  by (auto simp: latin1Upper_def asciiUpper_def less_char_def less_eq_char_def
      of_nat_of_char [symmetric, where ?'a = int])

lemma asciiLower_of_char:
  "c < CHR 0x80 \<Longrightarrow> (of_char (asciiLower c) :: int) = latin1Lower (of_char c)"
proof (cases "asciiUpper c")
  case True
  assume "c < CHR 0x80"
  have u: "(of_char c :: nat) \<le> 90"
    using True by (simp add: asciiUpper_def less_eq_char_def)
  then have "(of_char (char_of (of_char c + (32::nat))) :: nat) = of_char c + 32"
    by simp
  then have "(of_char (char_of (of_char c + (32::nat))) :: int) = of_char c + 32"
    by (metis of_nat_of_char of_nat_add of_nat_numeral)
  then show ?thesis
    using True \<open>c < CHR 0x80\<close> by (simp add: asciiLower_def latin1Lower_def latin1Upper_ascii)
next
  case False
  assume "c < CHR 0x80"
  then show ?thesis
    using False by (simp add: asciiLower_def latin1Lower_def latin1Upper_ascii)
qed

lemma asciiLower_ascii: "c < CHR 0x80 \<Longrightarrow> asciiLower c < CHR 0x80"
proof (cases "asciiUpper c")
  case True
  have "(of_char c :: nat) \<le> 90"
    using True by (simp add: asciiUpper_def less_eq_char_def)
  then show ?thesis
    using True by (simp add: asciiLower_def less_char_def)
next
  case False
  assume "c < CHR 0x80"
  then show ?thesis using False by (simp add: asciiLower_def)
qed

lemma encodeRune_ascii: "c < CHR 0x80 \<Longrightarrow> encodeRune (of_char c) = [c]"
proof -
  assume a: "c < CHR 0x80"
  have "(0::int) \<le> of_char c"
    by (simp add: of_nat_of_char [symmetric, where ?'a = int])
  then show ?thesis
    using ascii_of_char [OF a] by (simp add: encodeRune_def Let_def)
qed

lemma decodeRunes_ascii:
  "list_all (\<lambda>c. c < CHR 0x80) bs \<Longrightarrow> decodeRunes bs = map of_char bs"
  by (induction bs) (simp_all add: ascii_of_char Let_def)

lemma replaceID_ascii:
  "list_all (\<lambda>c. c < CHR 0x80) bs \<Longrightarrow> list_all (\<lambda>c. c < CHR 0x80) (replaceID bs)"
  by (induction bs rule: replaceID.induct) auto

lemma underscoreUpper_ascii:
  "list_all (\<lambda>c. c < CHR 0x80) cs \<Longrightarrow> list_all (\<lambda>c. c < CHR 0x80) (underscoreUpper cs)"
  by (induction cs) auto

lemma underscoreBefore_ascii:
  "list_all (\<lambda>c. c < CHR 0x80) cs \<Longrightarrow>
     underscoreBefore latin1Upper (map of_char cs) = map of_char (underscoreUpper cs)"
  by (induction cs) (simp_all add: latin1Upper_ascii)

lemma encode_lower_ascii:
  "list_all (\<lambda>c. c < CHR 0x80) cs \<Longrightarrow>
     concat (map encodeRune (map latin1Lower (map of_char cs))) = map asciiLower cs"
proof (induction cs)
  case Nil
  show ?case by simp
next
  case (Cons c cs)
  then have a: "c < CHR 0x80" by simp
  have "encodeRune (latin1Lower (of_char c)) = [asciiLower c]"
    using encodeRune_ascii [OF asciiLower_ascii [OF a]] asciiLower_of_char [OF a] by simp
  then show ?case
    using Cons by simp
qed

lemma spec_snakeCase_ascii:
  assumes "list_all (\<lambda>c. c < CHR 0x80) name"
  shows "spec_snakeCase latin1Upper latin1Lower name = ascii_snakeCase name"
proof (cases "replaceID name")
  case Nil
  then show ?thesis
    by (simp add: spec_snakeCase_def ascii_snakeCase_def)
next
  case (Cons c cs)
  have a: "list_all (\<lambda>c. c < CHR 0x80) (c # cs)"
    using replaceID_ascii [OF assms] Cons by simp
  then have b: "list_all (\<lambda>c. c < CHR 0x80) (c # underscoreUpper cs)"
    by (simp add: underscoreUpper_ascii)
  have "decodeRunes (replaceID name) = of_char c # map of_char cs"
    using decodeRunes_ascii [OF a] Cons by simp
  moreover have "underscoreBefore latin1Upper (map of_char cs) = map of_char (underscoreUpper cs)"
    using a by (simp add: underscoreBefore_ascii)
  ultimately have "spec_snakeCase latin1Upper latin1Lower name =
      concat (map encodeRune (map latin1Lower (map of_char (c # underscoreUpper cs))))"
    by (simp add: spec_snakeCase_def)
  then show ?thesis
    using encode_lower_ascii [OF b] Cons by (simp add: ascii_snakeCase_def)
qed

text \<open>
  C7, as amended. For a field declaration without gorm and json annotation (no tag, or a
  tag in which neither key has a value), the resolved column is the snake-case
  transliteration of the field name with the ASCII letters: \<open>ID\<close> replaced by \<open>id\<close>, then an
  underscore before each of the letters \<open>A\<close> to \<open>Z\<close> but the first character, and these
  letters lowercased; every other byte is left as it is. For a name of ASCII characters
  that is the transliteration with Unicode's letters. \<open>UserID\<close> gives \<open>userid\<close> and
  \<open>UserName\<close> gives \<open>user_name\<close>.
\<close>

theorem no_annotation_column:
  assumes "noAnnotation uq af" and "buildModelFieldInfo uq af = Inr fld"
  shows "(\<exists>name rest. Names af = name # rest \<and> Name fld = name \<and>
            Column fld = snakeString name \<and> snakeString name = ascii_snakeCase name \<and>
            (list_all (\<lambda>c. c < CHR 0x80) name \<longrightarrow>
               snakeString name = spec_snakeCase latin1Upper latin1Lower name)) \<and>
         snakeString ''UserID'' = ''userid'' \<and> snakeString ''UserName'' = ''user_name''"
proof -
  obtain name rest field1 where n: "Names af = name # rest"
    and s: "setColumn uq (Tag af) (zeroField\<lparr>Name := name\<rparr>) = Inr field1"
    and e: "Name fld = Name field1" "Column fld = Column field1"
    using buildModelFieldInfo_Inr [OF assms(2)] by blast
  have "field1 = zeroField\<lparr>Name := name, Column := snakeString name\<rparr>"
    using setColumn_noAnnotation [OF assms(1) s] by simp
  then have "Name fld = name" "Column fld = snakeString name"
    using e by simp_all
  moreover have "snakeString ''UserID'' = ''userid''" by code_simp
  moreover have "snakeString ''UserName'' = ''user_name''" by code_simp
  ultimately show ?thesis
    using n by (simp add: snakeString_ascii spec_snakeCase_ascii)
qed

theorem no_annotation_column_witness:
  "noAnnotation noEscapes otherKeysField \<and>
   buildModelFieldInfo noEscapes otherKeysField =
     Inr \<lparr>Name = ''UserName'', Type = ''string'', Column = ''user_name'', PrimaryKey = False,
          Comments = []\<rparr> \<and>
   ascii_snakeCase ''UserName'' = ''user_name'' \<and>
   list_all (\<lambda>c. c < CHR 0x80) ''UserName'' \<and>
   spec_snakeCase latin1Upper latin1Lower ''UserName'' = ''user_name'' \<and>
   noAnnotation noEscapes untaggedField \<and>
   buildModelFieldInfo noEscapes untaggedField =
     Inr \<lparr>Name = ''UserID'', Type = ''int64'', Column = ''userid'', PrimaryKey = False,
          Comments = []\<rparr> \<and>
   ascii_snakeCase ''UserID'' = ''userid''"
proof -
  have t1: "noAnnotation noEscapes otherKeysField"
    by code_simp
  have r1: "buildModelFieldInfo noEscapes otherKeysField =
     Inr \<lparr>Name = ''UserName'', Type = ''string'', Column = ''user_name'', PrimaryKey = False,
          Comments = []\<rparr>"
    by code_simp
  have a1: "list_all (\<lambda>c. c < CHR 0x80) ''UserName''"
    by simp
  have s1: "ascii_snakeCase ''UserName'' = ''user_name'' \<and>
      spec_snakeCase latin1Upper latin1Lower ''UserName'' = ''user_name''"
    using no_annotation_column [OF t1 r1] a1 by (auto simp: otherKeysField_def)
  have t2: "noAnnotation noEscapes untaggedField"
    by code_simp
  have r2: "buildModelFieldInfo noEscapes untaggedField =
     Inr \<lparr>Name = ''UserID'', Type = ''int64'', Column = ''userid'', PrimaryKey = False,
          Comments = []\<rparr>"
    by code_simp
  have s2: "ascii_snakeCase ''UserID'' = ''userid''"
    using no_annotation_column [OF t2 r2] by (simp add: untaggedField_def)
  show ?thesis
    using t1 r1 a1 s1 t2 r2 s2 by blast
qed

text \<open>
  The claim as the specification states it, an underscore before each uppercase letter
  and every letter lowercased, fails on a name with an uppercase letter outside ASCII:
  line 271 compares bytes with \<open>A\<close> and \<open>Z\<close>, so \<open>U+00C9\<close> gets no underscore and stays
  uppercase in the column, where the transliteration with Unicode's letters writes an
  underscore and \<open>U+00E9\<close>.
\<close>

theorem non_ascii_uppercase_counterexample:
  "buildModelFieldInfo noEscapes ecoleField =
     Inr \<lparr>Name = ''Name'' @ [CHR 0xC3, CHR 0x89] @ ''cole'', Type = ''string'',
          Column = ''name'' @ [CHR 0xC3, CHR 0x89] @ ''cole'', PrimaryKey = False,
          Comments = []\<rparr> \<and>
   decodeRunes (''Name'' @ [CHR 0xC3, CHR 0x89] @ ''cole'') =
     [0x4E, 0x61, 0x6D, 0x65, 0xC9, 0x63, 0x6F, 0x6C, 0x65] \<and>
   latin1Upper 0xC9 \<and> latin1Lower 0xC9 = 0xE9 \<and>
   spec_snakeCase latin1Upper latin1Lower (''Name'' @ [CHR 0xC3, CHR 0x89] @ ''cole'') =
     ''name_'' @ [CHR 0xC3, CHR 0xA9] @ ''cole''"
proof -
  have "buildModelFieldInfo noEscapes ecoleField =
     Inr \<lparr>Name = ''Name'' @ [CHR 0xC3, CHR 0x89] @ ''cole'', Type = ''string'',
          Column = ''name'' @ [CHR 0xC3, CHR 0x89] @ ''cole'', PrimaryKey = False,
          Comments = []\<rparr>"
    by code_simp
  moreover have "decodeRunes (''Name'' @ [CHR 0xC3, CHR 0x89] @ ''cole'') =
     [0x4E, 0x61, 0x6D, 0x65, 0xC9, 0x63, 0x6F, 0x6C, 0x65]"
    by code_simp
  moreover have "latin1Upper 0xC9"
    by (simp add: latin1Upper_def)
  moreover have "latin1Lower 0xC9 = 0xE9"
    by (simp add: latin1Lower_def latin1Upper_def)
  moreover have
    "spec_snakeCase latin1Upper latin1Lower (''Name'' @ [CHR 0xC3, CHR 0x89] @ ''cole'') =
       ''name_'' @ [CHR 0xC3, CHR 0xA9] @ ''cole''"
    by code_simp
  ultimately show ?thesis by blast
qed

subsection \<open>The gorm tag\<close>

text \<open>
  Where \<open>Get\<close> finds a gorm value, the column is what follows \<open>column:\<close> in the last token
  with that prefix, and it stays as it was when no token has the prefix.
\<close>

lemma tokenLoop_Column:
  "Column (tokenLoop vs field) =
     (case filter (\<lambda>v. HasPrefix v columnPrefix) vs of
        [] \<Rightarrow> Column field
      | c # cs \<Rightarrow> TrimPrefix (last (c # cs)) columnPrefix)"
proof (induction vs arbitrary: field)
  case Nil
  show ?case by simp
next
  case (Cons v vs)
  show ?case
    by (cases "filter (\<lambda>v. HasPrefix v columnPrefix) vs")
       (simp_all add: Cons.IH)
qed

lemma setColumn_gorm:
  assumes "3 \<le> length v"
    and "Get uq (drop 1 (take (length v - 2) v)) ''gorm'' = tagValue" and "tagValue \<noteq> []"
  shows "setColumn uq (Some v) field = Inr (tokenLoop (Split tagValue (CHR 0x3B)) field)"
  using assms by (auto simp: setColumn_def Let_def)

text \<open>
  C4. A gorm annotation with a token \<open>column:foo\<close> should resolve the column to \<open>foo\<close>.
  The slice of line 228 ends at \<open>len - 2\<close>: it drops the closing backquote and also the
  closing quote of the last key of the tag, so \<open>Get\<close> never finds the value of the last
  key. With the tag \<open>gorm:"column:foo"\<close> alone the column is the snake case of the name;
  with a json key before the gorm key it is the json value. When another key follows the
  gorm key the gorm value is found, and the last \<open>column:\<close> token gives the column.
\<close>

theorem column_token_of_last_key_lost:
  "buildModelFieldInfo uq lastKeyField =
     Inr \<lparr>Name = ''Name'', Type = ''string'', Column = ''name'', PrimaryKey = False,
          Comments = []\<rparr> \<and>
   buildModelFieldInfo uq jsonFirstField =
     Inr \<lparr>Name = ''Name'', Type = ''string'', Column = ''full_name'', PrimaryKey = False,
          Comments = []\<rparr> \<and>
   buildModelFieldInfo uq twoColumnsField =
     Inr \<lparr>Name = ''Name'', Type = ''string'', Column = ''bar'', PrimaryKey = False,
          Comments = []\<rparr>"
proof -
  have "buildModelFieldInfo uq lastKeyField =
     Inr \<lparr>Name = ''Name'', Type = ''string'', Column = ''name'', PrimaryKey = False,
          Comments = []\<rparr>"
    by code_simp
  moreover have "buildModelFieldInfo uq jsonFirstField =
     Inr \<lparr>Name = ''Name'', Type = ''string'', Column = ''full_name'', PrimaryKey = False,
          Comments = []\<rparr>"
    by code_simp
  moreover have "buildModelFieldInfo uq twoColumnsField =
     Inr \<lparr>Name = ''Name'', Type = ''string'', Column = ''bar'', PrimaryKey = False,
          Comments = []\<rparr>"
    by code_simp
  ultimately show ?thesis by blast
qed

text \<open>
  C6. The resolved column should never be empty. A gorm value without a \<open>column:\<close>
  token leaves \<open>field.Column\<close> at its zero value: the branch of line 229 has no fall
  back to \<open>snakeString\<close>, which the branches of lines 226 and 240 have.
\<close>

theorem column_left_empty:
  "buildModelFieldInfo uq keyOnlyField =
     Inr \<lparr>Name = ''Name'', Type = ''string'', Column = [], PrimaryKey = True, Comments = []\<rparr>"
  by code_simp

section \<open>The model builder\<close>

lemma fieldsLoop_Inr:
  assumes "fieldsLoop uq i flds fs pk = Inr (fs', pk')"
    and "i + length flds \<le> length fs"
  shows "\<exists>rs. map (buildModelFieldInfo uq) flds = map Inr rs \<and>
           fs' = take i fs @ rs @ drop (i + length flds) fs \<and> pk' = pkScan i rs pk"
  using assms
proof (induction flds arbitrary: i fs pk)
  case Nil
  then show ?case by simp
next
  case (Cons filed rest)
  from Cons.prems(1) obtain f where f: "buildModelFieldInfo uq filed = Inr f"
    by (cases "buildModelFieldInfo uq filed") auto
  define pk1 where "pk1 = (if PrimaryKey f then Some i
                           else if pk = None \<and> Column f = ''id'' then Some i else pk)"
  have i: "i < length fs"
    using Cons.prems(2) by simp
  have run: "fieldsLoop uq (i + 1) rest (fs[i := f]) pk1 = Inr (fs', pk')"
    using Cons.prems(1) f i by (auto simp: pk1_def Let_def split: if_splits)
  have len: "(i + 1) + length rest \<le> length (fs[i := f])"
    using Cons.prems(2) by simp
  from Cons.IH [OF run len] obtain rs where rs:
    "map (buildModelFieldInfo uq) rest = map Inr rs"
    "fs' = take (i + 1) (fs[i := f]) @ rs @ drop (i + 1 + length rest) (fs[i := f])"
    "pk' = pkScan (i + 1) rs pk1"
    by blast
  have "take (i + 1) (fs[i := f]) = take i fs @ [f]"
    using i by (simp add: take_Suc_conv_app_nth)
  moreover have "drop (i + 1 + length rest) (fs[i := f]) = drop (i + length (filed # rest)) fs"
    by simp
  moreover have "pkScan (i + 1) rs pk1 = pkScan i (f # rs) pk"
    by (auto simp: pk1_def)
  ultimately have "map (buildModelFieldInfo uq) (filed # rest) = map Inr (f # rs) \<and>
      fs' = take i fs @ (f # rs) @ drop (i + length (filed # rest)) fs \<and>
      pk' = pkScan i (f # rs) pk"
    using rs f by simp
  then show ?case by blast
qed

lemma pkScan_Some_unflagged:
  "\<not> list_ex PrimaryKey rs \<Longrightarrow> pkScan i rs (Some p) = Some p"
  by (induction rs arbitrary: i) auto

lemma pkScan_flagged:
  "list_ex PrimaryKey rs \<Longrightarrow> \<exists>k<length rs. pkScan i rs pk = Some (i + k) \<and> PrimaryKey (rs ! k)"
proof (induction rs arbitrary: i pk)
  case Nil
  then show ?case by simp
next
  case (Cons f fs)
  show ?case
  proof (cases "list_ex PrimaryKey fs")
    case True
    define pk1 where "pk1 = (if PrimaryKey f then Some i
                             else if pk = None \<and> Column f = ''id'' then Some i else pk)"
    from Cons.IH [OF True, of "i + 1" pk1] obtain k where
      "k < length fs" "pkScan (i + 1) fs pk1 = Some (i + 1 + k)" "PrimaryKey (fs ! k)"
      by blast
    then have "Suc k < length (f # fs) \<and> pkScan i (f # fs) pk = Some (i + Suc k) \<and>
               PrimaryKey ((f # fs) ! Suc k)"
      by (auto simp: pk1_def split: if_splits)
    then show ?thesis by blast
  next
    case False
    with Cons.prems have "PrimaryKey f" by simp
    then have "0 < length (f # fs) \<and> pkScan i (f # fs) pk = Some (i + 0) \<and>
               PrimaryKey ((f # fs) ! 0)"
      using False by (simp add: pkScan_Some_unflagged)
    then show ?thesis by blast
  qed
qed

lemma pkScan_None_bounds:
  "pkScan i rs None = Some k \<Longrightarrow> \<not> list_ex PrimaryKey rs \<Longrightarrow> i \<le> k \<and> k < i + length rs"
proof (induction rs arbitrary: i)
  case Nil
  then show ?case by simp
next
  case (Cons f fs)
  show ?case
  proof (cases "Column f = ''id''")
    case True
    with Cons.prems show ?thesis by (simp add: pkScan_Some_unflagged)
  next
    case False
    with Cons.prems have "pkScan (i + 1) fs None = Some k" "\<not> list_ex PrimaryKey fs"
      by simp_all
    from Cons.IH [OF this] show ?thesis by simp
  qed
qed

lemma unflagged_map: "\<not> list_ex PrimaryKey fs \<Longrightarrow> map PrimaryKey fs = map (\<lambda>_. False) fs"
  by (induction fs) auto

lemma inferred_flags:
  assumes "\<not> list_ex PrimaryKey rs"
  shows "map PrimaryKey
           (case pkScan i rs None of None \<Rightarrow> rs
            | Some k \<Rightarrow> rs[k - i := (rs ! (k - i))\<lparr>PrimaryKey := True\<rparr>])
         = firstOnly (map isId rs)"
  using assms
proof (induction rs arbitrary: i)
  case Nil
  then show ?case by simp
next
  case (Cons f fs)
  have nf: "\<not> PrimaryKey f" "\<not> list_ex PrimaryKey fs"
    using Cons.prems by simp_all
  show ?case
  proof (cases "Column f = ''id''")
    case True
    then show ?thesis
      using nf by (simp add: pkScan_Some_unflagged isId_def unflagged_map)
  next
    case False
    note IH = Cons.IH [OF nf(2), of "i + 1"]
    show ?thesis
    proof (cases "pkScan (i + 1) fs None")
      case None
      then show ?thesis
        using IH False nf by (simp add: isId_def)
    next
      case (Some k)
      from pkScan_None_bounds [OF Some nf(2)] have "i + 1 \<le> k" by simp
      then obtain d where d: "k - i = Suc d" "k - (i + 1) = d"
        by (cases "k - i") auto
      show ?thesis
        using IH False nf Some d by (simp add: isId_def)
    qed
  qed
qed

lemma flagged_update_same:
  assumes "k < length rs" and "PrimaryKey (rs ! k)"
  shows "rs[k := (rs ! k)\<lparr>PrimaryKey := True\<rparr>] = rs"
proof -
  have "(rs ! k)\<lparr>PrimaryKey := True\<rparr> = rs ! k"
    using assms(2) by simp
  then show ?thesis by simp
qed

lemma map_update_same: "(map g fs)[k := g (fs ! k)] = map g fs"
proof (cases "k < length fs")
  case True
  then have "(map g fs)[k := map g fs ! k] = map g fs"
    by (simp only: list_update_id)
  then show ?thesis using True by simp
next
  case False
  then have "length (map g fs) \<le> k" by simp
  then show ?thesis by (rule list_update_beyond)
qed

lemma update_other_fields:
  "map Column (fs[k := (fs ! k)\<lparr>PrimaryKey := True\<rparr>]) = map Column fs \<and>
   map Name (fs[k := (fs ! k)\<lparr>PrimaryKey := True\<rparr>]) = map Name fs \<and>
   map Type (fs[k := (fs ! k)\<lparr>PrimaryKey := True\<rparr>]) = map Type fs"
  by (simp add: map_update map_update_same)

lemma buildModelInfo_flags:
  assumes "buildModelInfo uq (Some ob) = Inr m"
  shows "\<exists>objFields rs. ObjDecl ob = TypeSpec (StructType objFields) \<and>
           map (buildModelFieldInfo uq) objFields = map Inr rs \<and>
           ModelName m = ObjName ob \<and>
           map Column (Fields m) = map Column rs \<and>
           map Name (Fields m) = map Name rs \<and>
           (if list_ex PrimaryKey rs then Fields m = rs
            else map PrimaryKey (Fields m) = firstOnly (map isId rs))"
proof -
  from assms obtain objFields where decl: "ObjDecl ob = TypeSpec (StructType objFields)"
    by (auto simp: buildModelInfo_def split: ObjDecl.splits TypeExpr.splits)
  define z where "z = replicate (length objFields) zeroField"
  from assms decl obtain fs pk where
    loop: "fieldsLoop uq 0 objFields z None = Inr (fs, pk)"
    and m: "m = \<lparr>ModelName = ObjName ob,
                 Fields = (case pk of None \<Rightarrow> fs
                           | Some k \<Rightarrow> fs[k := (fs ! k)\<lparr>PrimaryKey := True\<rparr>]),
                 ModelComments = []\<rparr>"
    by (auto simp: buildModelInfo_def z_def split: sum.splits prod.splits)
  have "0 + length objFields \<le> length z"
    by (simp add: z_def)
  from fieldsLoop_Inr [OF loop this] obtain rs where
    rs: "map (buildModelFieldInfo uq) objFields = map Inr rs"
    and fs: "fs = take 0 z @ rs @ drop (0 + length objFields) z"
    and pk: "pk = pkScan 0 rs None"
    by blast
  have "length rs = length objFields"
    using rs by (metis length_map)
  then have fs_rs: "fs = rs"
    using fs by (simp add: z_def)
  have fm: "Fields m = (case pkScan 0 rs None of None \<Rightarrow> rs
                        | Some k \<Rightarrow> rs[k := (rs ! k)\<lparr>PrimaryKey := True\<rparr>])"
    unfolding m fs_rs pk by simp
  have name: "ModelName m = ObjName ob"
    unfolding m by simp
  have cols: "map Column (Fields m) = map Column rs \<and> map Name (Fields m) = map Name rs"
    unfolding fm by (cases "pkScan 0 rs None") (simp_all add: update_other_fields)
  have flags: "if list_ex PrimaryKey rs then Fields m = rs
               else map PrimaryKey (Fields m) = firstOnly (map isId rs)"
  proof (cases "list_ex PrimaryKey rs")
    case True
    from pkScan_flagged [OF True, of 0 None] obtain k where
      "k < length rs" "pkScan 0 rs None = Some k" "PrimaryKey (rs ! k)"
      by auto
    then show ?thesis
      using True by (simp add: fm flagged_update_same)
  next
    case False
    have "map PrimaryKey
            (case pkScan 0 rs None of None \<Rightarrow> rs
             | Some k \<Rightarrow> rs[k := (rs ! k)\<lparr>PrimaryKey := True\<rparr>])
          = firstOnly (map isId rs)"
      using inferred_flags [OF False, of 0] by (cases "pkScan 0 rs None") simp_all
    then show ?thesis
      using False by (simp add: fm)
  qed
  show ?thesis
    using decl rs name cols flags by blast
qed
lemma count_firstOnly: "length (filter (\<lambda>b. b) (firstOnly bs)) = (if list_ex (\<lambda>b. b) bs then 1 else 0)"
  by (induction bs) (auto simp: filter_empty_conv)

lemma count_flags: "length (filter P fs) = length (filter (\<lambda>b. b) (map P fs))"
  by (induction fs) auto

lemma list_ex_map_id: "list_ex (\<lambda>b. b) (map P fs) = list_ex P fs"
  by (induction fs) auto

text \<open>
  C1, as amended. When the resolver flagged at least one field, the fields marked as
  primary key in the built model are exactly the flagged ones: the first flagged field,
  every later flagged field, and no other field, whatever column resolves to \<open>id\<close>. When
  the resolver flagged none, the first field whose column is exactly \<open>id\<close> is the only
  one marked, and none is marked when there is no such field.
\<close>

theorem primary_key_selection:
  assumes "buildModelInfo uq (Some ob) = Inr m"
  shows "\<exists>objFields rs. ObjDecl ob = TypeSpec (StructType objFields) \<and>
           map (buildModelFieldInfo uq) objFields = map Inr rs \<and>
           map PrimaryKey (Fields m) =
             (if list_ex PrimaryKey rs then map PrimaryKey rs else firstOnly (map isId rs))"
proof -
  from buildModelInfo_flags [OF assms] obtain objFields rs where
    "ObjDecl ob = TypeSpec (StructType objFields)"
    "map (buildModelFieldInfo uq) objFields = map Inr rs"
    "if list_ex PrimaryKey rs then Fields m = rs
     else map PrimaryKey (Fields m) = firstOnly (map isId rs)"
    by blast
  then have "ObjDecl ob = TypeSpec (StructType objFields) \<and>
      map (buildModelFieldInfo uq) objFields = map Inr rs \<and>
      map PrimaryKey (Fields m) =
        (if list_ex PrimaryKey rs then map PrimaryKey rs else firstOnly (map isId rs))"
    by (simp split: if_splits)
  then show ?thesis by blast
qed

theorem primary_key_selection_witness:
  "buildModelInfo noEscapes (Some idThenKey) =
     Inr \<lparr>ModelName = ''Product'',
          Fields =
            [\<lparr>Name = ''ID'', Type = ''int64'', Column = ''id'', PrimaryKey = False,
               Comments = []\<rparr>,
             \<lparr>Name = ''Code'', Type = ''string'', Column = ''code'', PrimaryKey = True,
               Comments = []\<rparr>,
             \<lparr>Name = ''Title'', Type = ''*string'', Column = ''title'', PrimaryKey = False,
               Comments = []\<rparr>],
          ModelComments = []\<rparr> \<and>
   (\<exists>objFields rs. ObjDecl idThenKey = TypeSpec (StructType objFields) \<and>
      map (buildModelFieldInfo noEscapes) objFields = map Inr rs \<and>
      [False, True, False] =
        (if list_ex PrimaryKey rs then map PrimaryKey rs else firstOnly (map isId rs)))"
proof -
  have run: "buildModelInfo noEscapes (Some idThenKey) =
     Inr \<lparr>ModelName = ''Product'',
          Fields =
            [\<lparr>Name = ''ID'', Type = ''int64'', Column = ''id'', PrimaryKey = False,
               Comments = []\<rparr>,
             \<lparr>Name = ''Code'', Type = ''string'', Column = ''code'', PrimaryKey = True,
               Comments = []\<rparr>,
             \<lparr>Name = ''Title'', Type = ''*string'', Column = ''title'', PrimaryKey = False,
               Comments = []\<rparr>],
          ModelComments = []\<rparr>"
    by code_simp
  show ?thesis
    using run primary_key_selection [OF run] by simp
qed

text \<open>
  The claim as the specification states it, the first flagged field alone, fails on a
  struct with two flagged fields: both stay flagged in the model, and the pointer
  \<open>primaryKey\<close> ends on the second one.
\<close>

theorem first_flagged_only_counterexample:
  "buildModelFieldInfo noEscapes userIdField =
     Inr \<lparr>Name = ''UserID'', Type = ''int64'', Column = ''user_id'', PrimaryKey = True,
          Comments = []\<rparr> \<and>
   buildModelFieldInfo noEscapes groupIdField =
     Inr \<lparr>Name = ''GroupID'', Type = ''int64'', Column = ''group_id'', PrimaryKey = True,
          Comments = []\<rparr> \<and>
   fieldsLoop noEscapes 0 [userIdField, groupIdField] [zeroField, zeroField] None =
     Inr ([\<lparr>Name = ''UserID'', Type = ''int64'', Column = ''user_id'', PrimaryKey = True,
             Comments = []\<rparr>,
           \<lparr>Name = ''GroupID'', Type = ''int64'', Column = ''group_id'', PrimaryKey = True,
             Comments = []\<rparr>],
          Some 1) \<and>
   buildModelInfo noEscapes (Some compositeKey) =
     Inr \<lparr>ModelName = ''Membership'',
          Fields =
            [\<lparr>Name = ''UserID'', Type = ''int64'', Column = ''user_id'', PrimaryKey = True,
               Comments = []\<rparr>,
             \<lparr>Name = ''GroupID'', Type = ''int64'', Column = ''group_id'', PrimaryKey = True,
               Comments = []\<rparr>],
          ModelComments = []\<rparr>"
proof -
  have "buildModelFieldInfo noEscapes userIdField =
     Inr \<lparr>Name = ''UserID'', Type = ''int64'', Column = ''user_id'', PrimaryKey = True,
          Comments = []\<rparr>"
    by code_simp
  moreover have "buildModelFieldInfo noEscapes groupIdField =
     Inr \<lparr>Name = ''GroupID'', Type = ''int64'', Column = ''group_id'', PrimaryKey = True,
          Comments = []\<rparr>"
    by code_simp
  moreover have
    "fieldsLoop noEscapes 0 [userIdField, groupIdField] [zeroField, zeroField] None =
     Inr ([\<lparr>Name = ''UserID'', Type = ''int64'', Column = ''user_id'', PrimaryKey = True,
             Comments = []\<rparr>,
           \<lparr>Name = ''GroupID'', Type = ''int64'', Column = ''group_id'', PrimaryKey = True,
             Comments = []\<rparr>],
          Some 1)"
    by code_simp
  moreover have "buildModelInfo noEscapes (Some compositeKey) =
     Inr \<lparr>ModelName = ''Membership'',
          Fields =
            [\<lparr>Name = ''UserID'', Type = ''int64'', Column = ''user_id'', PrimaryKey = True,
               Comments = []\<rparr>,
             \<lparr>Name = ''GroupID'', Type = ''int64'', Column = ''group_id'', PrimaryKey = True,
               Comments = []\<rparr>],
          ModelComments = []\<rparr>"
    by code_simp
  ultimately show ?thesis by blast
qed

text \<open>
  C5, as amended. The number of fields marked as primary key in the built model is the
  number the resolver flagged when that is at least one; otherwise it is one when some
  column is exactly \<open>id\<close> and zero when none is. So at most one field is marked whenever
  the resolver flagged at most one.
\<close>

theorem primary_key_count:
  assumes "buildModelInfo uq (Some ob) = Inr m"
  shows "\<exists>objFields rs. ObjDecl ob = TypeSpec (StructType objFields) \<and>
           map (buildModelFieldInfo uq) objFields = map Inr rs \<and>
           length (filter PrimaryKey (Fields m)) =
             (if list_ex PrimaryKey rs then length (filter PrimaryKey rs)
              else if list_ex isId rs then 1 else 0) \<and>
           (length (filter PrimaryKey rs) \<le> 1 \<longrightarrow> length (filter PrimaryKey (Fields m)) \<le> 1)"
proof -
  from buildModelInfo_flags [OF assms] obtain objFields rs where
    d: "ObjDecl ob = TypeSpec (StructType objFields)"
    and r: "map (buildModelFieldInfo uq) objFields = map Inr rs"
    and f: "if list_ex PrimaryKey rs then Fields m = rs
            else map PrimaryKey (Fields m) = firstOnly (map isId rs)"
    by blast
  have c: "length (filter PrimaryKey (Fields m)) =
             (if list_ex PrimaryKey rs then length (filter PrimaryKey rs)
              else if list_ex isId rs then 1 else 0)"
  proof (cases "list_ex PrimaryKey rs")
    case True
    then show ?thesis using f by simp
  next
    case False
    then have "map PrimaryKey (Fields m) = firstOnly (map isId rs)"
      using f by simp
    then have "length (filter PrimaryKey (Fields m)) =
               length (filter (\<lambda>b. b) (firstOnly (map isId rs)))"
      by (simp add: count_flags [of PrimaryKey])
    then show ?thesis
      using False by (simp add: count_firstOnly list_ex_map_id)
  qed
  have "length (filter PrimaryKey rs) \<le> 1 \<longrightarrow> length (filter PrimaryKey (Fields m)) \<le> 1"
    using c by (simp split: if_splits)
  then show ?thesis
    using d r c by blast
qed

theorem primary_key_count_witness:
  "buildModelInfo noEscapes (Some onlyId) =
     Inr \<lparr>ModelName = ''Tag'',
          Fields =
            [\<lparr>Name = ''Name'', Type = ''string'', Column = ''name'', PrimaryKey = False,
               Comments = []\<rparr>,
             \<lparr>Name = ''ID'', Type = ''int64'', Column = ''id'', PrimaryKey = True,
               Comments = []\<rparr>,
             \<lparr>Name = ''Key'', Type = ''string'', Column = ''id'', PrimaryKey = False,
               Comments = []\<rparr>],
          ModelComments = []\<rparr> \<and>
   (\<exists>objFields rs. ObjDecl onlyId = TypeSpec (StructType objFields) \<and>
      map (buildModelFieldInfo noEscapes) objFields = map Inr rs \<and>
      (1::nat) = (if list_ex PrimaryKey rs then length (filter PrimaryKey rs)
                  else if list_ex isId rs then 1 else 0))"
proof -
  have run: "buildModelInfo noEscapes (Some onlyId) =
     Inr \<lparr>ModelName = ''Tag'',
          Fields =
            [\<lparr>Name = ''Name'', Type = ''string'', Column = ''name'', PrimaryKey = False,
               Comments = []\<rparr>,
             \<lparr>Name = ''ID'', Type = ''int64'', Column = ''id'', PrimaryKey = True,
               Comments = []\<rparr>,
             \<lparr>Name = ''Key'', Type = ''string'', Column = ''id'', PrimaryKey = False,
               Comments = []\<rparr>],
          ModelComments = []\<rparr>"
    by code_simp
  from primary_key_count [OF run] obtain objFields rs where
    "ObjDecl onlyId = TypeSpec (StructType objFields)"
    "map (buildModelFieldInfo noEscapes) objFields = map Inr rs"
    "length (filter PrimaryKey
       [\<lparr>Name = ''Name'', Type = ''string'', Column = ''name'', PrimaryKey = False,
          Comments = []\<rparr>,
        \<lparr>Name = ''ID'', Type = ''int64'', Column = ''id'', PrimaryKey = True,
          Comments = []\<rparr>,
        \<lparr>Name = ''Key'', Type = ''string'', Column = ''id'', PrimaryKey = False,
          Comments = []\<rparr>]) =
       (if list_ex PrimaryKey rs then length (filter PrimaryKey rs)
        else if list_ex isId rs then 1 else 0)"
    by auto
  then have "ObjDecl onlyId = TypeSpec (StructType objFields) \<and>
      map (buildModelFieldInfo noEscapes) objFields = map Inr rs \<and>
      (1::nat) = (if list_ex PrimaryKey rs then length (filter PrimaryKey rs)
                  else if list_ex isId rs then 1 else 0)"
    by simp
  then show ?thesis
    using run by blast
qed

text \<open>
  The claim as the specification states it, never two fields flagged, fails on a struct
  whose tags flag two fields: the model carries both flags.
\<close>

theorem several_keys_counterexample:
  "buildModelFieldInfo noEscapes tenantField =
     Inr \<lparr>Name = ''Tenant'', Type = ''string'', Column = ''tenant'', PrimaryKey = True,
          Comments = []\<rparr> \<and>
   buildModelFieldInfo noEscapes serialField =
     Inr \<lparr>Name = ''Serial'', Type = ''int'', Column = ''serial'', PrimaryKey = True,
          Comments = []\<rparr> \<and>
   buildModelInfo noEscapes (Some threeKeys) =
     Inr \<lparr>ModelName = ''Ledger'',
          Fields =
            [\<lparr>Name = ''ID'', Type = ''int64'', Column = ''id'', PrimaryKey = False,
               Comments = []\<rparr>,
             \<lparr>Name = ''Tenant'', Type = ''string'', Column = ''tenant'', PrimaryKey = True,
               Comments = []\<rparr>,
             \<lparr>Name = ''Serial'', Type = ''int'', Column = ''serial'', PrimaryKey = True,
               Comments = []\<rparr>],
          ModelComments = []\<rparr>"
proof -
  have "buildModelFieldInfo noEscapes tenantField =
     Inr \<lparr>Name = ''Tenant'', Type = ''string'', Column = ''tenant'', PrimaryKey = True,
          Comments = []\<rparr>"
    by code_simp
  moreover have "buildModelFieldInfo noEscapes serialField =
     Inr \<lparr>Name = ''Serial'', Type = ''int'', Column = ''serial'', PrimaryKey = True,
          Comments = []\<rparr>"
    by code_simp
  moreover have "buildModelInfo noEscapes (Some threeKeys) =
     Inr \<lparr>ModelName = ''Ledger'',
          Fields =
            [\<lparr>Name = ''ID'', Type = ''int64'', Column = ''id'', PrimaryKey = False,
               Comments = []\<rparr>,
             \<lparr>Name = ''Tenant'', Type = ''string'', Column = ''tenant'', PrimaryKey = True,
               Comments = []\<rparr>,
             \<lparr>Name = ''Serial'', Type = ''int'', Column = ''serial'', PrimaryKey = True,
               Comments = []\<rparr>],
          ModelComments = []\<rparr>"
    by code_simp
  ultimately show ?thesis by blast
qed

section \<open>The classifier\<close>

lemma filesLoop_latched:
  "onceDone st \<Longrightarrow> filesLoop Build files st objects = Inr (objects', st') \<Longrightarrow> st' = st"
proof (induction files arbitrary: objects)
  case Nil
  then show ?case by simp
next
  case (Cons unit units)
  from Cons.prems obtain f objects1 where
    "unit = Some f" "declsLoop (Decls f) objects = Inr objects1"
    "filesLoop Build units st objects1 = Inr (objects', st')"
    by (auto simp: onceDo_def split: option.splits sum.splits)
  then show ?case
    using Cons.IH Cons.prems(1) by blast
qed

text \<open>
  C9. In a run of \<open>getModelObjects\<close> that starts with the latch open and returns, the
  first source unit seeds \<open>packageMap\<close> with its package name under the strategy's key,
  the closure of \<open>once.Do\<close> runs exactly once, and the state after the first unit is the
  state at the end: no later unit writes to it, whatever the units declare.
\<close>

theorem context_seeded_once:
  assumes "getModelObjects Build (file # files) st0 = Inr (objects, st)"
    and "\<not> onceDone st0"
  shows "\<exists>f. file = Some f \<and>
           st = st0\<lparr>onceDone := True,
                    packageMap := (packageMap st0)(PackageKey Build \<mapsto> PkgName f),
                    seedCount := seedCount st0 + 1\<rparr>"
proof -
  from assms obtain f objects1 where f: "file = Some f"
    and rest: "filesLoop Build files
                 (st0\<lparr>onceDone := True, packageMap := (packageMap st0)(PackageKey Build \<mapsto> PkgName f),
                      seedCount := seedCount st0 + 1\<rparr>) objects1 = Inr (objects, st)"
    by (auto simp: getModelObjects_def onceDo_def split: option.splits sum.splits)
  have "onceDone (st0\<lparr>onceDone := True, packageMap := (packageMap st0)(PackageKey Build \<mapsto> PkgName f),
                      seedCount := seedCount st0 + 1\<rparr>)"
    by simp
  from filesLoop_latched [OF this rest] show ?thesis
    using f by blast
qed

theorem context_seeded_once_witness:
  "\<not> onceDone freshState \<and>
   (\<exists>objects st.
      getModelObjects scenarioBuild [Some modelsFile, Some auditFile] freshState = Inr (objects, st) \<and>
      objects = [Some userObject, Some userObject] \<and>
      st = \<lparr>onceDone = True, packageMap = Map.empty(''pkg'' \<mapsto> ''models''), seedCount = 1\<rparr>)"
proof -
  have l: "\<not> onceDone freshState"
    by (simp add: freshState_def)
  have "map_sum id fst (getModelObjects scenarioBuild [Some modelsFile, Some auditFile] freshState) =
          Inr [Some userObject, Some userObject]"
    by code_simp
  then obtain st where
    run: "getModelObjects scenarioBuild [Some modelsFile, Some auditFile] freshState =
            Inr ([Some userObject, Some userObject], st)"
    by (cases "getModelObjects scenarioBuild [Some modelsFile, Some auditFile] freshState") auto
  from context_seeded_once [OF run l]
  have "st = \<lparr>onceDone = True, packageMap = Map.empty(''pkg'' \<mapsto> ''models''), seedCount = 1\<rparr>"
    by (simp add: freshState_def modelsFile_def scenarioBuild_def)
  then show ?thesis
    using l run by blast
qed

text \<open>
  C10. The classification should pass over every declaration without fault. It does not:
  \<open>decl.Recv\<close> is nil for a function without receiver and line 155 reads \<open>.List\<close> through
  it; \<open>decl.Type.Results\<close> is nil for a method \<open>TableName\<close> without results and line 164
  reads \<open>.List\<close> through it. Both panic, and so does \<open>getModelObjects\<close> on a source unit
  that declares such a function.
\<close>

theorem classification_panics:
  "isTablerFunc plainFunction = Inl NilDereference \<and>
   isTablerFunc tableNameNoResult = Inl NilDereference \<and>
   getModelObjects Build [Some helpersFile] st = Inl NilDereference"
proof -
  have "isTablerFunc plainFunction = Inl NilDereference"
    by code_simp
  moreover have "isTablerFunc tableNameNoResult = Inl NilDereference"
    by code_simp
  moreover have "getModelObjects Build [Some helpersFile] st = Inl NilDereference"
    by (simp add: getModelObjects_def onceDo_def helpersFile_def isTablerFunc_def
        plainFunction_def)
  ultimately show ?thesis by blast
qed

text \<open>
  On a method with receiver, no parameter and one result the classification returns: the
  method \<open>TableName\<close> qualifies, a method of another name does not.
\<close>

lemma classification_examples:
  "isTablerFunc tableNameMethod = Inr (Some userObject, True) \<and>
   isTablerFunc otherMethod = Inr (None, False)"
proof -
  have "isTablerFunc tableNameMethod = Inr (Some userObject, True)"
    by code_simp
  moreover have "isTablerFunc otherMethod = Inr (None, False)"
    by code_simp
  ultimately show ?thesis by blast
qed

section \<open>The emission pipeline\<close>

lemma blocks_snoc: "blocks cx (g @ [v]) = blocks cx g @ fst (cx v)"
  by (simp add: blocks_def)

lemma zip_upt_Cons:
  "zip [i..<i + length (x # xs)] (map f (x # xs)) =
     (i, f x) # zip [i + 1..<i + 1 + length xs] (map f xs)"
  by (simp add: upt_conv_Cons del: upt_Suc)

lemma modelsLoop_Inr:
  assumes "modelsLoop maxSize hx cx wr ms st = Inr st'"
    and "if setHeader st then pend \<noteq> [] \<and> buffer st = fst hx @ blocks cx pend
         else pend = [] \<and> buffer st = []"
  shows "\<exists>gs lastg. pend @ ms = concat gs @ lastg \<and>
           list_all (\<lambda>g. g \<noteq> []) gs \<and>
           list_all (\<lambda>g. maxSize \<le> int (length (fileBytes (fst hx) cx g))) gs \<and>
           written st' = written st @
             zip [index st..<index st + length gs] (map (fileBytes (fst hx) cx) gs) \<and>
           index st' = index st + length gs \<and>
           (if setHeader st' then lastg \<noteq> [] \<and> buffer st' = fst hx @ blocks cx lastg
            else lastg = [] \<and> buffer st' = [])"
  using assms
proof (induction ms arbitrary: st pend)
  case Nil
  then have e: "st' = st" by simp
  have "pend @ [] = concat [] @ pend \<and>
      list_all (\<lambda>g. g \<noteq> []) [] \<and>
      list_all (\<lambda>g. maxSize \<le> int (length (fileBytes (fst hx) cx g))) [] \<and>
      written st = written st @
        zip [index st..<index st + length ([]::ModelInfo list list)]
          (map (fileBytes (fst hx) cx) []) \<and>
      index st = index st + length ([]::ModelInfo list list) \<and>
      (if setHeader st then pend \<noteq> [] \<and> buffer st = fst hx @ blocks cx pend
       else pend = [] \<and> buffer st = [])"
    using Nil.prems(2) by simp
  then show ?case unfolding e by blast
next
  case (Cons v vs)
  define st1 where "st1 = (if setHeader st then st
                           else st\<lparr>buffer := buffer st @ fst hx, setHeader := True\<rparr>)"
  have hdr: "(if \<not> setHeader st then setFileHeader hx st else Inr st) = Inr st1"
    using Cons.prems(1)
    by (cases "snd hx") (auto simp: st1_def setFileHeader_def Let_def split: if_splits)
  have st1: "setHeader st1" "buffer st1 = fst hx @ blocks cx pend"
    "index st1 = index st" "written st1 = written st"
    using Cons.prems(2) by (auto simp: st1_def blocks_def split: if_splits)
  define st2 where "st2 = st1\<lparr>buffer := buffer st1 @ fst (cx v)\<rparr>"
  have st2: "setHeader st2" "buffer st2 = fst hx @ blocks cx (pend @ [v])"
    "index st2 = index st" "written st2 = written st"
    using st1 by (simp_all add: st2_def blocks_snoc)
  show ?case
  proof (cases "int (length (buffer st2)) < maxSize")
    case True
    have run: "modelsLoop maxSize hx cx wr vs st2 = Inr st'"
      using Cons.prems(1) True unfolding modelsLoop.simps hdr
      by (simp add: Let_def st2_def)
    have inv: "if setHeader st2 then pend @ [v] \<noteq> [] \<and>
                 buffer st2 = fst hx @ blocks cx (pend @ [v])
               else pend @ [v] = [] \<and> buffer st2 = []"
      using st2 by simp
    from Cons.IH [OF run inv] obtain gs lastg where
      "(pend @ [v]) @ vs = concat gs @ lastg"
      "list_all (\<lambda>g. g \<noteq> []) gs"
      "list_all (\<lambda>g. maxSize \<le> int (length (fileBytes (fst hx) cx g))) gs"
      "written st' = written st2 @
         zip [index st2..<index st2 + length gs] (map (fileBytes (fst hx) cx) gs)"
      "index st' = index st2 + length gs"
      "if setHeader st' then lastg \<noteq> [] \<and> buffer st' = fst hx @ blocks cx lastg
       else lastg = [] \<and> buffer st' = []"
      by blast
    then have "pend @ v # vs = concat gs @ lastg \<and>
      list_all (\<lambda>g. g \<noteq> []) gs \<and>
      list_all (\<lambda>g. maxSize \<le> int (length (fileBytes (fst hx) cx g))) gs \<and>
      written st' = written st @
         zip [index st..<index st + length gs] (map (fileBytes (fst hx) cx) gs) \<and>
      index st' = index st + length gs \<and>
      (if setHeader st' then lastg \<noteq> [] \<and> buffer st' = fst hx @ blocks cx lastg
       else lastg = [] \<and> buffer st' = [])"
      using st2 by simp
    then show ?thesis by blast
  next
    case False
    define st3 where "st3 = st2\<lparr>written := written st2 @ [(index st2, buffer st2)],
                                  index := index st2 + 1, buffer := [], setHeader := False\<rparr>"
    have sv: "save wr st2 = Inr st3"
      using Cons.prems(1) False unfolding modelsLoop.simps hdr
      by (cases "wr (index st2) (buffer st2)") (auto simp: Let_def st2_def st3_def save_def)
    have run: "modelsLoop maxSize hx cx wr vs st3 = Inr st'"
      using Cons.prems(1) False sv unfolding modelsLoop.simps hdr
      by (simp add: Let_def st2_def)
    have inv: "if setHeader st3 then [] \<noteq> [] \<and> buffer st3 = fst hx @ blocks cx []
               else [] = ([]::ModelInfo list) \<and> buffer st3 = []"
      by (simp add: st3_def)
    from Cons.IH [OF run inv] obtain gs lastg where gs:
      "[] @ vs = concat gs @ lastg"
      "list_all (\<lambda>g. g \<noteq> []) gs"
      "list_all (\<lambda>g. maxSize \<le> int (length (fileBytes (fst hx) cx g))) gs"
      "written st' = written st3 @
         zip [index st3..<index st3 + length gs] (map (fileBytes (fst hx) cx) gs)"
      "index st' = index st3 + length gs"
      "if setHeader st' then lastg \<noteq> [] \<and> buffer st' = fst hx @ blocks cx lastg
       else lastg = [] \<and> buffer st' = []"
      by blast
    have ix: "index st' = index st + length ((pend @ [v]) # gs)"
      using gs(5) st2 by (simp add: st3_def)
    have big: "maxSize \<le> int (length (fileBytes (fst hx) cx (pend @ [v])))"
      using False st2 by (simp add: fileBytes_def)
    have w: "written st' = written st @
         zip [index st..<index st + length ((pend @ [v]) # gs)]
           (map (fileBytes (fst hx) cx) ((pend @ [v]) # gs))"
    proof -
      have "written st3 = written st @ [(index st, fileBytes (fst hx) cx (pend @ [v]))]"
        using st2 by (simp add: st3_def fileBytes_def)
      moreover have "index st3 = index st + 1"
        using st2 by (simp add: st3_def)
      ultimately show ?thesis
        using gs(4) by (simp only: zip_upt_Cons append_assoc append_Cons append_Nil)
    qed
    have "pend @ v # vs = concat ((pend @ [v]) # gs) @ lastg \<and>
      list_all (\<lambda>g. g \<noteq> []) ((pend @ [v]) # gs) \<and>
      list_all (\<lambda>g. maxSize \<le> int (length (fileBytes (fst hx) cx g))) ((pend @ [v]) # gs) \<and>
      written st' = written st @
         zip [index st..<index st + length ((pend @ [v]) # gs)]
           (map (fileBytes (fst hx) cx) ((pend @ [v]) # gs)) \<and>
      index st' = index st + length ((pend @ [v]) # gs) \<and>
      (if setHeader st' then lastg \<noteq> [] \<and> buffer st' = fst hx @ blocks cx lastg
       else lastg = [] \<and> buffer st' = [])"
      using gs(1,2,3,6) big w ix by simp
    then show ?thesis by blast
  qed
qed

lemma modelsLoop_Inl:
  assumes "modelsLoop maxSize hx cx wr ms st = Inl (e, st')"
    and "if setHeader st then pend \<noteq> [] \<and> buffer st = fst hx @ blocks cx pend
         else pend = [] \<and> buffer st = []"
  shows "\<exists>gs rest. pend @ ms = concat gs @ rest \<and>
           list_all (\<lambda>g. g \<noteq> []) gs \<and>
           list_all (\<lambda>g. maxSize \<le> int (length (fileBytes (fst hx) cx g))) gs \<and>
           written st' = written st @
             zip [index st..<index st + length gs] (map (fileBytes (fst hx) cx) gs)"
  using assms
proof (induction ms arbitrary: st pend)
  case Nil
  then show ?case by simp
next
  case (Cons v vs)
  define F where "F = fileBytes (fst hx) cx"
  define big where "big = (\<lambda>g. maxSize \<le> int (length (F g)))"
  have none: "written st' = written st \<Longrightarrow> ?case"
  proof -
    assume "written st' = written st"
    then have "pend @ v # vs = concat [] @ (pend @ v # vs) \<and>
        list_all (\<lambda>g. g \<noteq> []) [] \<and> list_all big [] \<and>
        written st' = written st @ zip [index st..<index st + length ([]::ModelInfo list list)]
                                     (map F [])"
      by simp
    then show ?case unfolding F_def big_def by blast
  qed
  show ?case
  proof (cases "(if \<not> setHeader st then setFileHeader hx st else Inr st)")
    case (Inl a)
    then have "written st' = written st"
      using Cons.prems(1)
      by (cases "snd hx") (auto simp: setFileHeader_def Let_def split: if_splits)
    then show ?thesis by (rule none)
  next
    case (Inr st1)
    then have st1: "setHeader st1" "buffer st1 = fst hx @ blocks cx pend"
      "index st1 = index st" "written st1 = written st"
      using Cons.prems(2)
      by (cases "snd hx"; auto simp: setFileHeader_def Let_def blocks_def split: if_splits)+
    define st2 where "st2 = st1\<lparr>buffer := buffer st1 @ fst (cx v)\<rparr>"
    have st2: "setHeader st2" "buffer st2 = fst hx @ blocks cx (pend @ [v])"
      "index st2 = index st" "written st2 = written st"
      using st1 by (simp_all add: st2_def blocks_snoc)
    show ?thesis
    proof (cases "int (length (buffer st2)) < maxSize")
      case True
      have run: "modelsLoop maxSize hx cx wr vs st2 = Inl (e, st')"
        using Cons.prems(1) True unfolding modelsLoop.simps Inr
        by (simp add: Let_def st2_def)
      have inv: "if setHeader st2 then pend @ [v] \<noteq> [] \<and>
                   buffer st2 = fst hx @ blocks cx (pend @ [v])
                 else pend @ [v] = [] \<and> buffer st2 = []"
        using st2 by simp
      from Cons.IH [OF run inv] obtain gs rest where
        "(pend @ [v]) @ vs = concat gs @ rest" "list_all (\<lambda>g. g \<noteq> []) gs" "list_all big gs"
        "written st' = written st2 @ zip [index st2..<index st2 + length gs] (map F gs)"
        unfolding F_def big_def by blast
      then have "pend @ v # vs = concat gs @ rest \<and> list_all (\<lambda>g. g \<noteq> []) gs \<and>
          list_all big gs \<and>
          written st' = written st @ zip [index st..<index st + length gs] (map F gs)"
        using st2 by simp
      then show ?thesis unfolding F_def big_def by blast
    next
      case False
      show ?thesis
      proof (cases "save wr st2")
        case (Inl a)
        then have "written st' = written st"
          using Cons.prems(1) False st2(4) unfolding modelsLoop.simps Inr
          by (cases "wr (index st2) (buffer st2)")
             (auto simp: Let_def st2_def save_def)
        then show ?thesis by (rule none)
      next
        case (Inr st3)
        then have st3: "st3 = st2\<lparr>written := written st2 @ [(index st2, buffer st2)],
                                   index := index st2 + 1, buffer := [], setHeader := False\<rparr>"
          by (cases "wr (index st2) (buffer st2)") (auto simp: save_def)
        have run: "modelsLoop maxSize hx cx wr vs st3 = Inl (e, st')"
          using Cons.prems(1) False Inr \<open>(if \<not> setHeader st then setFileHeader hx st else Inr st) = Inr st1\<close>
          unfolding modelsLoop.simps
          by (simp add: Let_def st2_def)
        have inv: "if setHeader st3 then [] \<noteq> [] \<and> buffer st3 = fst hx @ blocks cx []
                   else [] = ([]::ModelInfo list) \<and> buffer st3 = []"
          by (simp add: st3)
        from Cons.IH [OF run inv] obtain gs rest where gs:
          "[] @ vs = concat gs @ rest" "list_all (\<lambda>g. g \<noteq> []) gs" "list_all big gs"
          "written st' = written st3 @ zip [index st3..<index st3 + length gs] (map F gs)"
          unfolding F_def big_def by blast
        have b: "big (pend @ [v])"
          using False st2 by (simp add: big_def F_def fileBytes_def)
        have w: "written st' = written st @
             zip [index st..<index st + length ((pend @ [v]) # gs)] (map F ((pend @ [v]) # gs))"
        proof -
          have "written st3 = written st @ [(index st, F (pend @ [v]))]"
            using st2 by (simp add: st3 F_def fileBytes_def)
          moreover have "index st3 = index st + 1"
            using st2 by (simp add: st3)
          ultimately show ?thesis
            using gs(4) by (simp only: zip_upt_Cons append_assoc append_Cons append_Nil)
        qed
        have "pend @ v # vs = concat ((pend @ [v]) # gs) @ rest \<and>
            list_all (\<lambda>g. g \<noteq> []) ((pend @ [v]) # gs) \<and> list_all big ((pend @ [v]) # gs) \<and>
            written st' = written st @
              zip [index st..<index st + length ((pend @ [v]) # gs)]
                (map F ((pend @ [v]) # gs))"
          using gs(1,2,3) b w by simp
        then show ?thesis unfolding F_def big_def by blast
      qed
    qed
  qed
qed

lemma list_all_butlast: "list_all P xs \<Longrightarrow> list_all P (butlast xs)"
  by (induction xs) auto

lemma zip_upt_snoc:
  "zip [0..<length (xs @ [x])] (map f (xs @ [x])) =
     zip [0..<length xs] (map f xs) @ [(length xs, f x)]"
  by simp

text \<open>
  C2, as amended. Once both templates are parsed, whatever \<open>generateFile\<close> returns: the
  models split, in input order, into consecutive non-empty groups followed by a rest; the
  files are one per group, with the indices \<open>0, 1, 2, \<dots>\<close> in the order of writing, each
  holding the header rendering and then the whole content blocks of its group, so that no
  block is split; every file except possibly the last has at least \<open>maxSize\<close> bytes. When
  \<open>generateFile\<close> returns nil the rest is empty, unless the header and every model of the
  rest rendered to zero bytes: a final buffer of zero bytes is not written. (A content
  block is what \<open>Execute\<close> wrote for the model, also when \<open>Execute\<close> failed.)
\<close>

theorem emitted_files_partition:
  assumes "generateFile Build wr pkgMap models = (err, files)"
    and "HeaderTemplate Build = Inr hTemplate" and "ContentTemplate Build = Inr cTemplate"
  shows "\<exists>gs rest.
           models = concat gs @ rest \<and>
           list_all (\<lambda>g. g \<noteq> []) gs \<and>
           files = zip [0..<length gs] (map (fileBytes (fst (hTemplate pkgMap)) cTemplate) gs) \<and>
           list_all (\<lambda>g. FileMaxSize Build \<le>
                          int (length (fileBytes (fst (hTemplate pkgMap)) cTemplate g)))
             (butlast gs) \<and>
           (err = None \<longrightarrow>
              rest = [] \<or> fileBytes (fst (hTemplate pkgMap)) cTemplate rest = [])"
proof -
  define F where "F = fileBytes (fst (hTemplate pkgMap)) cTemplate"
  define big where "big = (\<lambda>g. FileMaxSize Build \<le> int (length (F g)))"
  define loop where "loop = modelsLoop (FileMaxSize Build) (hTemplate pkgMap) cTemplate
                              wr models initState"
  have gen: "generateFile Build wr pkgMap models =
       (case loop of
          Inl (e, st) \<Rightarrow> (Some e, written st)
        | Inr st \<Rightarrow>
            if length (buffer st) = 0 then (None, written st)
            else (case save wr st of
                    Inl (e, st1) \<Rightarrow> (Some e, written st1)
                  | Inr st1 \<Rightarrow> (None, written st1)))"
    using assms(2,3) by (simp add: generateFile_def loop_def)
  have inv: "if setHeader initState
             then [] \<noteq> [] \<and> buffer initState = fst (hTemplate pkgMap) @ blocks cTemplate []
             else [] = ([]::ModelInfo list) \<and> buffer initState = []"
    by (simp add: initState_def)
  show ?thesis
  proof (cases loop)
    case (Inl a)
    obtain e st where a: "a = (e, st)" by (cases a)
    have l: "modelsLoop (FileMaxSize Build) (hTemplate pkgMap) cTemplate wr
               models initState = Inl (e, st)"
      using Inl a by (simp add: loop_def)
    from modelsLoop_Inl [OF l inv] obtain gs rest where
      "models = concat gs @ rest" "list_all (\<lambda>g. g \<noteq> []) gs" "list_all big gs"
      "written st = zip [0..<length gs] (map F gs)"
      unfolding F_def big_def by (auto simp: initState_def)
    moreover have "err = Some e" "files = written st"
      using assms(1) gen Inl a by simp_all
    moreover have "list_all big gs \<Longrightarrow> list_all big (butlast gs)"
      by (rule list_all_butlast)
    ultimately have "models = concat gs @ rest \<and> list_all (\<lambda>g. g \<noteq> []) gs \<and>
        files = zip [0..<length gs] (map F gs) \<and> list_all big (butlast gs) \<and>
        (err = None \<longrightarrow> rest = [] \<or> F rest = [])"
      by simp
    then show ?thesis unfolding F_def big_def by blast
  next
    case (Inr st)
    have l: "modelsLoop (FileMaxSize Build) (hTemplate pkgMap) cTemplate wr
               models initState = Inr st"
      using Inr by (simp add: loop_def)
    from modelsLoop_Inr [OF l inv] obtain gs lastg where
      part: "models = concat gs @ lastg"
      and ne: "list_all (\<lambda>g. g \<noteq> []) gs"
      and bg: "list_all big gs"
      and wrt: "written st = zip [0..<length gs] (map F gs)"
      and ix: "index st = length gs"
      and buf: "if setHeader st
                then lastg \<noteq> [] \<and> buffer st = fst (hTemplate pkgMap) @ blocks cTemplate lastg
                else lastg = [] \<and> buffer st = []"
      unfolding F_def big_def by (auto simp: initState_def)
    have fin: "(err, files) =
       (if length (buffer st) = 0 then (None, written st)
        else (case save wr st of
                Inl (e, st1) \<Rightarrow> (Some e, written st1)
              | Inr st1 \<Rightarrow> (None, written st1)))"
      using assms(1) gen Inr by simp
    have bl: "list_all big (butlast gs)"
      using bg by (rule list_all_butlast)
    show ?thesis
    proof (cases "buffer st = []")
      case True
      then have "files = zip [0..<length gs] (map F gs)"
        using fin wrt by simp
      moreover have "lastg = [] \<or> F lastg = []"
        using buf True by (auto simp: F_def fileBytes_def split: if_splits)
      ultimately have "models = concat gs @ lastg \<and> list_all (\<lambda>g. g \<noteq> []) gs \<and>
          files = zip [0..<length gs] (map F gs) \<and> list_all big (butlast gs) \<and>
          (err = None \<longrightarrow> lastg = [] \<or> F lastg = [])"
        using part ne bl by simp
      then show ?thesis unfolding F_def big_def by blast
    next
      case False
      then have "setHeader st"
        using buf by (auto split: if_splits)
      then have lg: "lastg \<noteq> []" "buffer st = F lastg"
        using buf by (simp_all add: F_def fileBytes_def)
      show ?thesis
      proof (cases "wr (index st) (buffer st)")
        case (Some e)
        then have "err = Some e" "files = written st"
          using fin False by (simp_all add: save_def)
        then have "models = concat gs @ lastg \<and> list_all (\<lambda>g. g \<noteq> []) gs \<and>
            files = zip [0..<length gs] (map F gs) \<and> list_all big (butlast gs) \<and>
            (err = None \<longrightarrow> lastg = [] \<or> F lastg = [])"
          using part ne bl wrt by simp
        then show ?thesis unfolding F_def big_def by blast
      next
        case None
        then have "files = written st @ [(index st, buffer st)]"
          using fin False by (simp add: save_def)
        then have "files = zip [0..<length (gs @ [lastg])] (map F (gs @ [lastg]))"
          unfolding zip_upt_snoc using wrt ix lg by simp
        moreover have "models = concat (gs @ [lastg]) @ []"
          using part by simp
        moreover have "list_all (\<lambda>g. g \<noteq> []) (gs @ [lastg])"
          using ne lg by simp
        moreover have "list_all big (butlast (gs @ [lastg]))"
          using bg by simp
        ultimately have "models = concat (gs @ [lastg]) @ [] \<and>
            list_all (\<lambda>g. g \<noteq> []) (gs @ [lastg]) \<and>
            files = zip [0..<length (gs @ [lastg])] (map F (gs @ [lastg])) \<and>
            list_all big (butlast (gs @ [lastg])) \<and>
            (err = None \<longrightarrow> ([]::ModelInfo list) = [] \<or> F [] = [])"
          by simp
        then show ?thesis unfolding F_def big_def by blast
      qed
    qed
  qed
qed

theorem emitted_files_partition_witness:
  "generateFile scenarioBuild allWritten (Map.empty(''pkg'' \<mapsto> ''db'')) scenarioModels =
     (None, [(0, ''package dbA.............................B.............................''),
             (1, ''package dbC.............................D.............................''),
             (2, ''package dbE.............................'')]) \<and>
   HeaderTemplate scenarioBuild = Inr packageHeader \<and>
   ContentTemplate scenarioBuild = Inr paddedBlock \<and>
   (\<exists>gs rest.
      scenarioModels = concat gs @ rest \<and>
      list_all (\<lambda>g. g \<noteq> []) gs \<and>
      [(0, ''package dbA.............................B.............................''),
       (1, ''package dbC.............................D.............................''),
       (2, ''package dbE.............................'')] =
        zip [0..<length gs]
          (map (fileBytes (fst (packageHeader (Map.empty(''pkg'' \<mapsto> ''db'')))) paddedBlock) gs) \<and>
      list_all (\<lambda>g. FileMaxSize scenarioBuild \<le>
                  int (length (fileBytes (fst (packageHeader (Map.empty(''pkg'' \<mapsto> ''db''))))
                                 paddedBlock g)))
        (butlast gs) \<and>
      (rest = [] \<or>
       fileBytes (fst (packageHeader (Map.empty(''pkg'' \<mapsto> ''db'')))) paddedBlock rest = []))"
proof -
  have run: "generateFile scenarioBuild allWritten (Map.empty(''pkg'' \<mapsto> ''db'')) scenarioModels =
     (None, [(0, ''package dbA.............................B.............................''),
             (1, ''package dbC.............................D.............................''),
             (2, ''package dbE.............................'')])"
    by code_simp
  have h: "HeaderTemplate scenarioBuild = Inr packageHeader"
    by (simp add: scenarioBuild_def)
  have c: "ContentTemplate scenarioBuild = Inr paddedBlock"
    by (simp add: scenarioBuild_def)
  show ?thesis
    using run h c emitted_files_partition [OF run h c] by simp
qed

text \<open>
  The claim as the specification states it, every model in exactly one content block of
  an output file, fails when nothing is rendered: with an empty header rendering and a
  model whose content block is empty, \<open>generateFile\<close> returns nil and has written no file.
\<close>

theorem nothing_rendered_counterexample:
  "fst (fieldsOnly emptyModel) = [] \<and>
   generateFile silentBuild allWritten Map.empty [emptyModel] = (None, [])"
proof -
  have "fst (fieldsOnly emptyModel) = []"
    by code_simp
  moreover have "generateFile silentBuild allWritten Map.empty [emptyModel] = (None, [])"
    by code_simp
  ultimately show ?thesis by blast
qed

text \<open>
  With a header that renders and all writes succeeding, \<open>generateFile\<close> returns nil.
\<close>

lemma modelsLoop_returns:
  assumes "snd hx = None" and "\<forall>i b. wr i b = None"
  shows "\<exists>st'. modelsLoop maxSize hx cx wr ms st = Inr st'"
proof (induction ms arbitrary: st)
  case Nil
  show ?case by simp
next
  case (Cons v vs)
  define st1 where "st1 = (if setHeader st then st
                           else st\<lparr>buffer := buffer st @ fst hx, setHeader := True\<rparr>)"
  have hdr: "(if \<not> setHeader st then setFileHeader hx st else Inr st) = Inr st1"
    using assms(1) by (simp add: st1_def setFileHeader_def Let_def)
  define st2 where "st2 = st1\<lparr>buffer := buffer st1 @ fst (cx v)\<rparr>"
  define st3 where "st3 = st2\<lparr>written := written st2 @ [(index st2, buffer st2)],
                                index := index st2 + 1, buffer := [], setHeader := False\<rparr>"
  have sv: "save wr st2 = Inr st3"
    by (simp add: save_def assms(2) st3_def)
  have "modelsLoop maxSize hx cx wr (v # vs) st =
          (if int (length (buffer st2)) < maxSize then modelsLoop maxSize hx cx wr vs st2
           else modelsLoop maxSize hx cx wr vs st3)"
    unfolding modelsLoop.simps hdr using sv by (simp add: Let_def st2_def)
  then show ?case
    using Cons.IH [of st2] Cons.IH [of st3] by auto
qed

lemma generateFile_returns_nil:
  assumes "HeaderTemplate Build = Inr hTemplate" and "snd (hTemplate pkgMap) = None"
    and "ContentTemplate Build = Inr cTemplate" and "\<And>i b. wr i b = None"
  shows "fst (generateFile Build wr pkgMap models) = None"
proof -
  have "\<forall>i b. wr i b = None"
    using assms(4) by simp
  from modelsLoop_returns [OF assms(2) this] obtain st where
    "modelsLoop (FileMaxSize Build) (hTemplate pkgMap) cTemplate wr models
       initState = Inr st"
    by blast
  then show ?thesis
    using assms(1,3,4) by (simp add: generateFile_def save_def)
qed

text \<open>
  C8. Five models with content blocks of 30 bytes each, a header of 10 bytes and
  \<open>maxSize = 50\<close> give exactly three files: header and the first two blocks (70 bytes),
  header and the next two blocks (70 bytes), header and the last block (40 bytes).
\<close>

theorem five_models_three_files:
  assumes "HeaderTemplate Build = Inr hTemplate" and "hTemplate pkgMap = (h, None)"
    and "length h = 10"
    and "ContentTemplate Build = Inr cTemplate"
    and "length (fst (cTemplate m1)) = 30" and "length (fst (cTemplate m2)) = 30"
    and "length (fst (cTemplate m3)) = 30" and "length (fst (cTemplate m4)) = 30"
    and "length (fst (cTemplate m5)) = 30"
    and "FileMaxSize Build = 50"
    and "\<And>i b. wr i b = None"
  shows "generateFile Build wr pkgMap [m1, m2, m3, m4, m5] =
           (None, [(0, h @ fst (cTemplate m1) @ fst (cTemplate m2)),
                   (1, h @ fst (cTemplate m3) @ fst (cTemplate m4)),
                   (2, h @ fst (cTemplate m5))]) \<and>
         length (h @ fst (cTemplate m1) @ fst (cTemplate m2)) = 70 \<and>
         length (h @ fst (cTemplate m3) @ fst (cTemplate m4)) = 70 \<and>
         length (h @ fst (cTemplate m5)) = 40"
  using assms
  by (simp add: generateFile_def initState_def setFileHeader_def save_def Let_def)

theorem five_models_three_files_witness:
  "generateFile scenarioBuild allWritten (Map.empty(''pkg'' \<mapsto> ''db'')) scenarioModels =
     (None, [(0, ''package dbA.............................B.............................''),
             (1, ''package dbC.............................D.............................''),
             (2, ''package dbE.............................'')])"
proof -
  have b: "\<And>n. length (fst (paddedBlock (named n))) = 30"
    by (simp add: paddedBlock_def named_def)
  have "generateFile scenarioBuild allWritten (Map.empty(''pkg'' \<mapsto> ''db''))
          [named ''A'', named ''B'', named ''C'', named ''D'', named ''E''] =
     (None, [(0, ''package db'' @ fst (paddedBlock (named ''A'')) @ fst (paddedBlock (named ''B''))),
             (1, ''package db'' @ fst (paddedBlock (named ''C'')) @ fst (paddedBlock (named ''D''))),
             (2, ''package db'' @ fst (paddedBlock (named ''E'')))])"
    using five_models_three_files [of scenarioBuild packageHeader
            "Map.empty(''pkg'' \<mapsto> ''db'')" "''package db''" paddedBlock
            "named ''A''" "named ''B''" "named ''C''" "named ''D''" "named ''E''"
            allWritten]
    by (simp add: scenarioBuild_def packageHeader_def allWritten_def b)
  moreover have "fst (paddedBlock (named ''A'')) = ''A.............................''"
    and "fst (paddedBlock (named ''B'')) = ''B.............................''"
    and "fst (paddedBlock (named ''C'')) = ''C.............................''"
    and "fst (paddedBlock (named ''D'')) = ''D.............................''"
    and "fst (paddedBlock (named ''E'')) = ''E.............................''"
    by code_simp+
  ultimately show ?thesis
    by (simp add: scenarioModels_def)
qed

text \<open>
  C3. A failing content rendering should abort the run with its error. Line 119 assigns
  the error of \<open>cTemplate.Execute\<close> to \<open>err\<close> and nothing reads it (the header's error is
  checked in line 115): the partial block stays in the buffer, the next model is rendered,
  the file is written and \<open>generateFile\<close> returns nil.
\<close>

theorem render_error_not_surfaced:
  "needsKey emptyModel = (''type Marker'', Some TemplateExecError) \<and>
   generateFile needsKeyBuild allWritten (Map.empty(''pkg'' \<mapsto> ''db'')) [emptyModel, userModel] =
     (None, [(0, ''package dbtype Markertype User key id;'')])"
proof -
  have "needsKey emptyModel = (''type Marker'', Some TemplateExecError)"
    by code_simp
  moreover have
    "generateFile needsKeyBuild allWritten (Map.empty(''pkg'' \<mapsto> ''db'')) [emptyModel, userModel] =
       (None, [(0, ''package dbtype Markertype User key id;'')])"
    by code_simp
  ultimately show ?thesis by blast
qed

end
